theory Spec2Isabelle
  imports Complex_Main
begin

section \<open>The BOP 2024 pose evaluation script (scripts/eval\_bop24\_pose.py)\<close>

text \<open>
  A shallow embedding of the evaluation of one result file by
  \<^verbatim>\<open>scripts/eval_bop24_pose.py\<close> (the body of the loop over
  \<^verbatim>\<open>p["result_filenames"]\<close>, lines 93 to 292).

  Numbers. A \<^verbatim>\<open>numpy.float64\<close> is modelled as an exact real number or the value NaN;
  rounding and the infinities are not modelled. \<^verbatim>\<open>np.mean\<close> of an empty list is NaN
  (numpy warns and returns it, it does not raise), and NaN in the list gives NaN.

  Dictionaries are association lists in insertion order with Python's update semantics;
  a lookup of a missing key is a \<open>KeyError\<close>.

  The outside world (the loaded estimates, the exit statuses of the child processes, the
  content of the score files) is a record \<open>env\<close>; the effects of the script on it
  (child processes run, files read, the final file written) are an event trace.
\<close>

subsection \<open>Numbers and dictionaries\<close>

datatype npfloat = NaN | Num real

fun the_num :: "npfloat \<Rightarrow> real" where
  "the_num (Num r) = r"
| "the_num NaN = 0"

definition np_mean :: "npfloat list \<Rightarrow> npfloat" where
  "np_mean xs =
     (if xs = [] \<or> NaN \<in> set xs then NaN
      else Num (sum_list (map the_num xs) / real (length xs)))"

datatype error =
    TimingValueError int int   \<comment> \<open>line 121: the running time for scene, image differs\<close>
  | RuntimeError string        \<comment> \<open>lines 161 and 203\<close>
  | AssertionError             \<comment> \<open>line 255\<close>
  | KeyError string            \<comment> \<open>a dictionary lookup of a missing key\<close>
  | PoolValueError             \<comment> \<open>\<^verbatim>\<open>multiprocessing.Pool(n)\<close> with \<open>n < 1\<close>\<close>
  | LoadError                  \<comment> \<open>\<^verbatim>\<open>inout.load_json\<close> failed (file missing or unreadable)\<close>

text \<open>\<^verbatim>\<open>d[k]\<close>\<close>

definition dict_get :: "(string \<times> 'v) list \<Rightarrow> string \<Rightarrow> error + 'v" where
  "dict_get d k = (case map_of d k of None \<Rightarrow> Inl (KeyError k) | Some v \<Rightarrow> Inr v)"

text \<open>\<^verbatim>\<open>d[k] = v\<close>: an existing key keeps its place, a new key goes last.\<close>

fun dict_set :: "('k \<times> 'v) list \<Rightarrow> 'k \<Rightarrow> 'v \<Rightarrow> ('k \<times> 'v) list" where
  "dict_set [] k v = [(k, v)]"
| "dict_set ((k', v') # d) k v =
     (if k' = k then (k', v) # d else (k', v') # dict_set d k v)"

text \<open>\<^verbatim>\<open>d.setdefault(k, []).append(v)\<close>\<close>

fun setdefault_append :: "('k \<times> 'v list) list \<Rightarrow> 'k \<Rightarrow> 'v \<Rightarrow> ('k \<times> 'v list) list" where
  "setdefault_append [] k v = [(k, [v])]"
| "setdefault_append ((k', vs) # d) k v =
     (if k' = k then (k', vs @ [v]) # d else (k', vs) # setdefault_append d k v)"

subsection \<open>Parameters (lines 23 to 62)\<close>

record error_cfg =
  n_top :: int
  etype :: string
  correct_th :: "real list list"

text \<open>\<^verbatim>\<open>np.arange(start, stop, step)\<close>: \<open>ceil((stop - start) / step)\<close> values from \<open>start\<close>.\<close>

definition arange :: "real \<Rightarrow> real \<Rightarrow> real \<Rightarrow> real list" where
  "arange start stop step =
     map (\<lambda>i. start + real i * step) [0 ..< nat \<lceil>(stop - start) / step\<rceil>]"

definition mssd_error :: error_cfg where
  "mssd_error =
     \<lparr>n_top = 0, etype = ''mssd'', correct_th = map (\<lambda>th. [th]) (arange 0.05 0.51 0.05)\<rparr>"

definition mspd_error :: error_cfg where
  "mspd_error =
     \<lparr>n_top = 0, etype = ''mspd'', correct_th = map (\<lambda>th. [th]) (arange 5 51 5)\<rparr>"

text \<open>\<^verbatim>\<open>p["errors"]\<close>\<close>

definition errors :: "error_cfg list" where
  "errors = [mssd_error, mspd_error]"

subsection \<open>The outside world\<close>

record est =
  scene_id :: int
  im_id :: int
  time :: real

text \<open>
  A score file as \<^verbatim>\<open>inout.load_json\<close> returns it: the dictionaries under
  \<^verbatim>\<open>"scores"\<close> and \<^verbatim>\<open>"num_instances_per_object"\<close>, keyed by object identifier.
\<close>

record score_file =
  scores :: "(string \<times> real) list"
  num_instances_per_object :: "(string \<times> int) list"

record env =
  ests :: "est list"
    \<comment> \<open>\<^verbatim>\<open>inout.load_bop_results\<close> of the result file\<close>
  calc_errors_rc :: "string \<Rightarrow> int"
    \<comment> \<open>exit status of the error calculation for an error type\<close>
  calc_scores_rc :: "string \<Rightarrow> real list \<Rightarrow> int"
    \<comment> \<open>exit status of the score calculation for an error type and a threshold\<close>
  load_scores :: "string \<Rightarrow> real list \<Rightarrow> error + score_file"
    \<comment> \<open>the score file of an error type and a threshold, as read at lines 232 to 235\<close>

datatype event =
    CalcErrors string int
      \<comment> \<open>\<^verbatim>\<open>subprocess.call(calc_errors_cmd)\<close> returned this status\<close>
  | TaskStart string "real list"
      \<comment> \<open>a score calculation (error type, threshold) started\<close>
  | TaskEnd string "real list" int
      \<comment> \<open>it terminated with this status\<close>
  | LoadScores string "real list"
      \<comment> \<open>the score file was read\<close>
  | SaveJson "(string \<times> npfloat) list"
      \<comment> \<open>\<^verbatim>\<open>inout.save_json(final_scores_path, final_scores)\<close>\<close>

subsection \<open>Average estimation time per image (lines 111 to 131)\<close>

text \<open>
  The key \<^verbatim>\<open>"{:06d}_{:06d}".format(scene_id, im_id)\<close> determines the two integers
  (digits and a sign, separated by an underscore), so the pair itself is the key.
\<close>

definition result_key :: "est \<Rightarrow> int \<times> int" where
  "result_key e = (scene_id e, im_id e)"

text \<open>The loop of lines 113 to 126; the result is \<open>(times_available, times)\<close>.\<close>

fun times_loop :: "est list \<Rightarrow> ((int \<times> int) \<times> real) list \<Rightarrow> error + bool \<times> ((int \<times> int) \<times> real) list" where
  "times_loop [] tms = Inr (True, tms)"
| "times_loop (e # es) tms =
     (if time e < 0 then Inr (False, tms)
      else case map_of tms (result_key e) of
        Some t \<Rightarrow>
          if \<bar>t - time e\<bar> > 0.001 then Inl (TimingValueError (scene_id e) (im_id e))
          else times_loop es tms
      | None \<Rightarrow> times_loop es (dict_set tms (result_key e) (time e)))"

definition average_time_per_image :: "est list \<Rightarrow> error + npfloat" where
  "average_time_per_image es =
     (case times_loop es [] of
        Inl err \<Rightarrow> Inl err
      | Inr (times_available, tms) \<Rightarrow>
          Inr (if times_available then np_mean (map (\<lambda>kv. Num (snd kv)) tms) else Num (- 1)))"

subsection \<open>Running the child processes (lines 159 to 208)\<close>

text \<open>Lines 200 to 203: one blocking call per threshold, the first failure raises.\<close>

fun run_sequential :: "env \<Rightarrow> string \<Rightarrow> real list list \<Rightarrow> event list \<times> (error + unit)" where
  "run_sequential env t [] = ([], Inr ())"
| "run_sequential env t (th # ths) =
     (let rc = calc_scores_rc env t th in
      if rc \<noteq> 0 then
        ([TaskStart t th, TaskEnd t th rc],
         Inl (RuntimeError ''Calculation of performance scores failed.''))
      else
        (case run_sequential env t ths of
           (tr, r) \<Rightarrow> (TaskStart t th # TaskEnd t th rc # tr, r)))"

text \<open>
  Lines 205 to 208: \<^verbatim>\<open>map_async\<close> hands every command to the pool and its result is
  dropped; \<^verbatim>\<open>close\<close> and \<^verbatim>\<open>join\<close> return when the workers have run
  all of them. The workers may interleave the tasks; the trace lists them in the order
  of submission, all of them before \<^verbatim>\<open>join\<close> returns.
\<close>

definition run_pool :: "env \<Rightarrow> string \<Rightarrow> real list list \<Rightarrow> event list" where
  "run_pool env t ths =
     concat (map (\<lambda>th. [TaskStart t th, TaskEnd t th (calc_scores_rc env t th)]) ths)"

definition run_score_tasks :: "int \<Rightarrow> env \<Rightarrow> error_cfg \<Rightarrow> event list \<times> (error + unit)" where
  "run_score_tasks num_workers env err =
     (if num_workers = 1 then run_sequential env (etype err) (correct_th err)
      else if num_workers < 1 then ([], Inl PoolValueError)
      else (run_pool env (etype err) (correct_th err), Inr ()))"

subsection \<open>The mAP of one error type (lines 217 to 262)\<close>

text \<open>
  Lines 237 to 244, for one score file: the state is
  \<open>(mAP_scores_per_object, num_object_ids_ignored)\<close>.
\<close>

fun per_threshold :: "(string \<times> real) list \<Rightarrow> (string \<times> int) list \<Rightarrow>
    (string \<times> real list) list \<times> string list \<Rightarrow>
    error + (string \<times> real list) list \<times> string list" where
  "per_threshold [] nipo st = Inr st"
| "per_threshold ((ob, s) # rest) nipo (per_object, ignored) =
     (case dict_get nipo ob of
        Inl err \<Rightarrow> Inl err
      | Inr n \<Rightarrow>
          if n > 0 then per_threshold rest nipo (setdefault_append per_object ob s, ignored)
          else per_threshold rest nipo (per_object, ignored @ [ob]))"

text \<open>Loop 3, lines 221 to 244: read the score file of each threshold and fold it in.\<close>

fun loop3 :: "env \<Rightarrow> string \<Rightarrow> real list list \<Rightarrow>
    (string \<times> real list) list \<times> string list \<Rightarrow>
    event list \<times> (error + (string \<times> real list) list \<times> string list)" where
  "loop3 env t [] st = ([], Inr st)"
| "loop3 env t (th # ths) st =
     (case load_scores env t th of
        Inl err \<Rightarrow> ([LoadScores t th], Inl err)
      | Inr f \<Rightarrow>
          (case per_threshold (scores f) (num_instances_per_object f) st of
             Inl err \<Rightarrow> ([LoadScores t th], Inl err)
           | Inr st' \<Rightarrow>
               (case loop3 env t ths st' of (tr, r) \<Rightarrow> (LoadScores t th # tr, r))))"

text \<open>Loop 2, lines 252 to 261: the mean of each object's scores, behind the assertion.\<close>

fun loop2 :: "(string \<times> real list) list \<Rightarrow> string list \<Rightarrow> error + npfloat list" where
  "loop2 [] ignored = Inr []"
| "loop2 ((ob, ss) # rest) ignored =
     (if ob \<in> set ignored then Inl AssertionError
      else case loop2 rest ignored of
        Inl err \<Rightarrow> Inl err
      | Inr ms \<Rightarrow> Inr (np_mean (map Num ss) # ms))"

definition calc_mAP :: "env \<Rightarrow> error_cfg \<Rightarrow> event list \<times> (error + npfloat)" where
  "calc_mAP env err =
     (case loop3 env (etype err) (correct_th err) ([], []) of
        (tr, Inl e) \<Rightarrow> (tr, Inl e)
      | (tr, Inr (per_object, ignored)) \<Rightarrow>
          (case loop2 per_object ignored of
             Inl e \<Rightarrow> (tr, Inl e)
           | Inr mAP_over_correct_ths \<Rightarrow> (tr, Inr (np_mean mAP_over_correct_ths))))"

subsection \<open>Loop 1 over the error types (lines 136 to 265)\<close>

definition eval_error_type :: "int \<Rightarrow> env \<Rightarrow> error_cfg \<Rightarrow> event list \<times> (error + npfloat)" where
  "eval_error_type num_workers env err =
     (let rc = calc_errors_rc env (etype err) in
      if rc \<noteq> 0 then
        ([CalcErrors (etype err) rc], Inl (RuntimeError ''Calculation of pose errors failed.''))
      else
        (case run_score_tasks num_workers env err of
           (tr1, Inl e) \<Rightarrow> (CalcErrors (etype err) rc # tr1, Inl e)
         | (tr1, Inr u) \<Rightarrow>
             (case calc_mAP env err of
                (tr2, r) \<Rightarrow> (CalcErrors (etype err) rc # tr1 @ tr2, r))))"

fun loop1 :: "int \<Rightarrow> env \<Rightarrow> error_cfg list \<Rightarrow> (string \<times> npfloat) list \<Rightarrow>
    event list \<times> (error + (string \<times> npfloat) list)" where
  "loop1 num_workers env [] mAP_per_error_type = ([], Inr mAP_per_error_type)"
| "loop1 num_workers env (err # errs) mAP_per_error_type =
     (case eval_error_type num_workers env err of
        (tr, Inl e) \<Rightarrow> (tr, Inl e)
      | (tr, Inr m) \<Rightarrow>
          (case loop1 num_workers env errs (dict_set mAP_per_error_type (etype err) m) of
             (tr', r) \<Rightarrow> (tr @ tr', r)))"

subsection \<open>The final scores (lines 271 to 287)\<close>

text \<open>Lines 272 to 275.\<close>

fun copy_mAPs :: "error_cfg list \<Rightarrow> (string \<times> npfloat) list \<Rightarrow> (string \<times> npfloat) list \<Rightarrow>
    error + (string \<times> npfloat) list" where
  "copy_mAPs [] mAP_per_error_type final_scores = Inr final_scores"
| "copy_mAPs (err # errs) mAP_per_error_type final_scores =
     (case dict_get mAP_per_error_type (etype err) of
        Inl e \<Rightarrow> Inl e
      | Inr m \<Rightarrow>
          copy_mAPs errs mAP_per_error_type
            (dict_set final_scores (''bop24_mAP_'' @ etype err) m))"

definition calc_final_scores :: "(string \<times> npfloat) list \<Rightarrow> npfloat \<Rightarrow>
    error + (string \<times> npfloat) list" where
  "calc_final_scores mAP_per_error_type avg_time =
     (case copy_mAPs errors mAP_per_error_type [] of
        Inl e \<Rightarrow> Inl e
      | Inr fs1 \<Rightarrow>
          (case dict_get mAP_per_error_type ''mssd'' of
             Inl e \<Rightarrow> Inl e
           | Inr a \<Rightarrow>
               (case dict_get mAP_per_error_type ''mspd'' of
                  Inl e \<Rightarrow> Inl e
                | Inr b \<Rightarrow>
                    Inr (dict_set (dict_set fs1 ''bop24_mAP'' (np_mean [a, b]))
                           ''bop24_average_time_per_image'' avg_time))))"

subsection \<open>The evaluation of one result file (lines 93 to 292)\<close>

definition evaluate :: "int \<Rightarrow> env \<Rightarrow> event list \<times> (error + (string \<times> npfloat) list)" where
  "evaluate num_workers env =
     (case average_time_per_image (ests env) of
        Inl e \<Rightarrow> ([], Inl e)
      | Inr avg_time \<Rightarrow>
          (case loop1 num_workers env errors [] of
             (tr, Inl e) \<Rightarrow> (tr, Inl e)
           | (tr, Inr mAP_per_error_type) \<Rightarrow>
               (case calc_final_scores mAP_per_error_type avg_time of
                  Inl e \<Rightarrow> (tr, Inl e)
                | Inr final_scores \<Rightarrow> (tr @ [SaveJson final_scores], Inr final_scores))))"

section \<open>Definitions for the specification\<close>

subsection \<open>Timing\<close>

text \<open>
  The recorded per-image times: one entry per distinct key, in the order of first
  appearance, holding the time of the first estimate with that key.
\<close>

fun per_image_times :: "est list \<Rightarrow> ((int \<times> int) \<times> real) list" where
  "per_image_times [] = []"
| "per_image_times (e # es) =
     (result_key e, time e) # filter (\<lambda>kv. fst kv \<noteq> result_key e) (per_image_times es)"

text \<open>The time of the first estimate with a given key.\<close>

definition first_time :: "est list \<Rightarrow> int \<times> int \<Rightarrow> real option" where
  "first_time es k = map_option time (find (\<lambda>e. result_key e = k) es)"

text \<open>
  The time an estimate is compared with inside the loop: the recorded one, or else that
  of the first estimate still to come with the key.
\<close>

definition ref_time :: "((int \<times> int) \<times> real) list \<Rightarrow> est list \<Rightarrow> int \<times> int \<Rightarrow> real option" where
  "ref_time tms es k = (case map_of tms k of Some t \<Rightarrow> Some t | None \<Rightarrow> first_time es k)"

text \<open>The estimates the loop looks at: those before the first negative time.\<close>

definition scanned :: "est list \<Rightarrow> est list" where
  "scanned es = takeWhile (\<lambda>e. 0 \<le> time e) es"

text \<open>
  An estimate is in conflict: its time differs by more than \<open>0.001\<close> from the time of
  the first estimate with its key.
\<close>

definition conflicting :: "est list \<Rightarrow> est \<Rightarrow> bool" where
  "conflicting es e =
     (case first_time es (result_key e) of
        Some t0 \<Rightarrow> \<bar>t0 - time e\<bar> > 0.001
      | None \<Rightarrow> False)"

text \<open>
  The timing summary in closed form: the error names the first scanned estimate in
  conflict; without one, the value is the sentinel or the mean.
\<close>

definition timing_summary :: "est list \<Rightarrow> error + npfloat" where
  "timing_summary es =
     (case find (conflicting es) (scanned es) of
        Some e \<Rightarrow> Inl (TimingValueError (scene_id e) (im_id e))
      | None \<Rightarrow>
          Inr (if \<exists>e\<in>set es. time e < 0 then Num (- 1)
               else np_mean (map (\<lambda>kv. Num (snd kv)) (per_image_times es))))"

text \<open>
  Being in conflict inside the loop: the time differs from the one recorded so far for the
  key, or else from that of the first estimate still to come with the key.
\<close>

definition conflicts_ref :: "((int \<times> int) \<times> real) list \<Rightarrow> est list \<Rightarrow> est \<Rightarrow> bool" where
  "conflicts_ref tms es e =
     (case ref_time tms es (result_key e) of
        Some t0 \<Rightarrow> \<bar>t0 - time e\<bar> > 0.001
      | None \<Rightarrow> False)"

subsection \<open>Aggregation\<close>

text \<open>The arithmetic mean of a list of reals.\<close>

definition mean :: "real list \<Rightarrow> real" where
  "mean xs = sum_list xs / real (length xs)"

text \<open>An object has a positive instance count in a score file.\<close>

definition positive :: "score_file \<Rightarrow> string \<Rightarrow> bool" where
  "positive f ob = (case map_of (num_instances_per_object f) ob of Some n \<Rightarrow> 0 < n | None \<Rightarrow> False)"

text \<open>
  The per-threshold scores of an object: its scores from the score files in which its
  instance count is positive, in the order of the thresholds.
\<close>

definition object_scores :: "score_file list \<Rightarrow> string \<Rightarrow> real list" where
  "object_scores fs ob =
     concat (map (\<lambda>f. map snd (filter (\<lambda>ks. fst ks = ob \<and> positive f ob) (scores f))) fs)"

text \<open>The objects with at least one score from a file with a positive instance count.\<close>

definition averaged_objects :: "score_file list \<Rightarrow> string list" where
  "averaged_objects fs =
     remdups (filter (\<lambda>ob. object_scores fs ob \<noteq> []) (concat (map (\<lambda>f. map fst (scores f)) fs)))"

text \<open>The objects that some score file lists with an instance count that is not positive.\<close>

definition ignored_objects :: "score_file list \<Rightarrow> string set" where
  "ignored_objects fs = {ob. \<exists>f\<in>set fs. ob \<in> fst ` set (scores f) \<and> \<not> positive f ob}"

text \<open>The mAP as the specification words it: the mean over the objects of the mean of their scores.\<close>

definition spec_mAP :: "score_file list \<Rightarrow> npfloat" where
  "spec_mAP fs =
     (if averaged_objects fs = [] then NaN
      else Num (mean (map (\<lambda>ob. mean (object_scores fs ob)) (averaged_objects fs))))"

text \<open>The score files of the thresholds, those that could be read.\<close>

definition loaded :: "env \<Rightarrow> string \<Rightarrow> real list list \<Rightarrow> score_file list" where
  "loaded env t ths =
     concat (map (\<lambda>th. case load_scores env t th of Inl e \<Rightarrow> [] | Inr f \<Rightarrow> [f]) ths)"

definition loaded_files :: "env \<Rightarrow> error_cfg \<Rightarrow> score_file list" where
  "loaded_files env err = loaded env (etype err) (correct_th err)"

text \<open>Auxiliary notions for the proofs about the dictionary of scores per object.\<close>

definition lk :: "(string \<times> real list) list \<Rightarrow> string \<Rightarrow> real list" where
  "lk d ob = (case map_of d ob of None \<Rightarrow> [] | Some ss \<Rightarrow> ss)"

definition wf_dict :: "(string \<times> real list) list \<Rightarrow> bool" where
  "wf_dict d \<longleftrightarrow> distinct (map fst d) \<and> [] \<notin> snd ` set d"

definition file_scores :: "(string \<times> real) list \<Rightarrow> (string \<times> int) list \<Rightarrow> string \<Rightarrow> real list" where
  "file_scores sc nipo ob =
     map snd (filter (\<lambda>ks. fst ks = ob \<and> (case map_of nipo ob of Some n \<Rightarrow> 0 < n | None \<Rightarrow> False)) sc)"

subsection \<open>Event traces\<close>

text \<open>The thresholds configured for an error type.\<close>

definition thresholds :: "string \<Rightarrow> real list list" where
  "thresholds t =
     (if t = ''mssd'' then correct_th mssd_error
      else if t = ''mspd'' then correct_th mspd_error else [])"

text \<open>What must hold of the events \<open>S\<close> that precede an event.\<close>

definition ok_after :: "event set \<Rightarrow> event \<Rightarrow> bool" where
  "ok_after S e =
     (case e of
        TaskStart t th \<Rightarrow> CalcErrors t 0 \<in> S
      | LoadScores t th \<Rightarrow>
          (\<forall>th'. TaskStart t th' \<in> S \<longrightarrow> (\<exists>rc. TaskEnd t th' rc \<in> S)) \<and>
          (\<forall>th'\<in>set (thresholds t). \<exists>rc. TaskEnd t th' rc \<in> S)
      | _ \<Rightarrow> True)"

text \<open>Every event of a trace is in order after the events \<open>S\<close> and those before it.\<close>

definition ordered_from :: "event set \<Rightarrow> event list \<Rightarrow> bool" where
  "ordered_from S tr \<longleftrightarrow> (\<forall>i<length tr. ok_after (S \<union> set (take i tr)) (tr ! i))"

text \<open>Every score calculation that started has terminated.\<close>

definition tasks_closed :: "event set \<Rightarrow> bool" where
  "tasks_closed S \<longleftrightarrow> (\<forall>t th. TaskStart t th \<in> S \<longrightarrow> (\<exists>rc. TaskEnd t th rc \<in> S))"

text \<open>The error type an event is about.\<close>

fun event_type :: "event \<Rightarrow> string option" where
  "event_type (CalcErrors t rc) = Some t"
| "event_type (TaskStart t th) = Some t"
| "event_type (TaskEnd t th rc) = Some t"
| "event_type (LoadScores t th) = Some t"
| "event_type (SaveJson fs) = None"

text \<open>A child process ended with a status the script checks and finds non-zero.\<close>

fun failing :: "int \<Rightarrow> event \<Rightarrow> bool" where
  "failing nw (CalcErrors t rc) = (rc \<noteq> 0)"
| "failing nw (TaskEnd t th rc) = (nw = 1 \<and> rc \<noteq> 0)"
| "failing nw e = False"

text \<open>The event reads a score file.\<close>

fun is_load :: "event \<Rightarrow> bool" where
  "is_load (LoadScores t th) = True"
| "is_load e = False"

text \<open>The error the script raises at a failing event.\<close>

fun error_of :: "event \<Rightarrow> error" where
  "error_of (TaskEnd t th rc) = RuntimeError ''Calculation of performance scores failed.''"
| "error_of e = RuntimeError ''Calculation of pose errors failed.''"

section \<open>Example inputs\<close>

definition one_object_file :: "real \<Rightarrow> score_file" where
  "one_object_file s = \<lparr>scores = [(''1'', s)], num_instances_per_object = [(''1'', 3)]\<rparr>"

definition c4_ests :: "est list" where
  "c4_ests = [\<lparr>scene_id = 1, im_id = 1, time = 1\<rparr>,
              \<lparr>scene_id = 1, im_id = 1, time = 1.0008\<rparr>,
              \<lparr>scene_id = 1, im_id = 1, time = 0.9992\<rparr>]"

definition c4_conflict :: "est list" where
  "c4_conflict = [\<lparr>scene_id = 9, im_id = 9, time = 1\<rparr>,
                  \<lparr>scene_id = 3, im_id = 7, time = 1\<rparr>,
                  \<lparr>scene_id = 3, im_id = 8, time = 2\<rparr>,
                  \<lparr>scene_id = 3, im_id = 7, time = 1.002\<rparr>]"

definition c4_good :: "est list" where
  "c4_good = [\<lparr>scene_id = 3, im_id = 7, time = 1\<rparr>,
              \<lparr>scene_id = 3, im_id = 8, time = 2\<rparr>,
              \<lparr>scene_id = 3, im_id = 7, time = 1.001\<rparr>]"

definition c3_ests :: "est list" where
  "c3_ests = [\<lparr>scene_id = 1, im_id = 1, time = 1\<rparr>,
              \<lparr>scene_id = 1, im_id = 2, time = 2\<rparr>,
              \<lparr>scene_id = 1, im_id = 1, time = 1.0005\<rparr>]"

definition c3_ests_neg :: "est list" where
  "c3_ests_neg = [\<lparr>scene_id = 1, im_id = 1, time = 1\<rparr>,
                  \<lparr>scene_id = 1, im_id = 2, time = - 1\<rparr>]"

definition c3_conflict :: "est list" where
  "c3_conflict = [\<lparr>scene_id = 1, im_id = 1, time = 1\<rparr>,
                  \<lparr>scene_id = 1, im_id = 1, time = 5\<rparr>,
                  \<lparr>scene_id = 1, im_id = 2, time = - 1\<rparr>]"

definition c3_env :: env where
  "c3_env = \<lparr>ests = c3_ests, calc_errors_rc = (\<lambda>t. 0), calc_scores_rc = (\<lambda>t th. 0),
     load_scores = (\<lambda>t th. Inr (one_object_file 0.5))\<rparr>"

definition c2_env :: env where
  "c2_env = \<lparr>ests = [], calc_errors_rc = (\<lambda>t. 0), calc_scores_rc = (\<lambda>t th. 0),
     load_scores = (\<lambda>t th. Inr (one_object_file (if t = ''mssd'' then 0.70 else 0.50)))\<rparr>"

definition abc_file :: "real \<Rightarrow> bool \<Rightarrow> score_file" where
  "abc_file a with_b =
     \<lparr>scores = [(''A'', a)] @ (if with_b then [(''B'', 1.0)] else []) @ [(''C'', 0)],
      num_instances_per_object = [(''A'', 2), (''B'', 1), (''C'', 0)]\<rparr>"

definition c1_error :: error_cfg where
  "c1_error = \<lparr>n_top = 0, etype = ''mssd'', correct_th = [[0.05], [0.1], [0.15]]\<rparr>"

definition c1_env :: env where
  "c1_env = \<lparr>ests = [], calc_errors_rc = (\<lambda>t. 0), calc_scores_rc = (\<lambda>t th. 0),
     load_scores = (\<lambda>t th.
       if th = [0.05] then Inr (abc_file 0.2 True)
       else if th = [0.1] then Inr (abc_file 0.4 True)
       else Inr (abc_file 0.6 False))\<rparr>"

definition c9_error :: error_cfg where
  "c9_error = \<lparr>n_top = 0, etype = ''mspd'', correct_th = [[5], [10]]\<rparr>"

definition c9_file :: "int \<Rightarrow> score_file" where
  "c9_file n = \<lparr>scores = [(''A'', 0.5)], num_instances_per_object = [(''A'', n)]\<rparr>"

definition c9_env :: env where
  "c9_env = \<lparr>ests = [], calc_errors_rc = (\<lambda>t. 0), calc_scores_rc = (\<lambda>t th. 0),
     load_scores = (\<lambda>t th. if th = [5] then Inr (c9_file 0) else Inr (c9_file 2))\<rparr>"

definition c10_env :: env where
  "c10_env = \<lparr>ests = [], calc_errors_rc = (\<lambda>t. 0), calc_scores_rc = (\<lambda>t th. 0),
     load_scores = (\<lambda>t th. if t = ''mssd'' then Inr (c9_file 0) else Inr (c9_file 2))\<rparr>"

definition c6_env :: env where
  "c6_env = \<lparr>ests = [], calc_errors_rc = (\<lambda>t. if t = ''mspd'' then 1 else 0),
     calc_scores_rc = (\<lambda>t th. 0), load_scores = (\<lambda>t th. Inr (one_object_file 0.5))\<rparr>"

definition c6_env_task :: env where
  "c6_env_task = \<lparr>ests = [], calc_errors_rc = (\<lambda>t. 0),
     calc_scores_rc = (\<lambda>t th. if th = [0.1] then 3 else 0),
     load_scores = (\<lambda>t th. Inr (one_object_file 0.5))\<rparr>"

definition c7_env :: env where
  "c7_env = \<lparr>ests = [], calc_errors_rc = (\<lambda>t. 0), calc_scores_rc = (\<lambda>t th. 1),
     load_scores = (\<lambda>t th. Inr (one_object_file 0.5))\<rparr>"

section \<open>Lemmas\<close>

subsection \<open>Dictionaries\<close>

lemma map_of_dict_set: "map_of (dict_set d k v) = (map_of d)(k \<mapsto> v)"
  by (induction d k v rule: dict_set.induct) auto

lemma dict_set_new: "map_of d k = None \<Longrightarrow> dict_set d k v = d @ [(k, v)]"
  by (induction d k v rule: dict_set.induct) (auto split: if_splits)

lemma map_of_setdefault_append:
  "map_of (setdefault_append d k v) = (map_of d)(k \<mapsto> lk d k @ [v])"
  by (induction d k v rule: setdefault_append.induct) (auto simp: lk_def)

lemma lk_setdefault_append:
  "lk (setdefault_append d k v) ob = lk d ob @ (if ob = k then [v] else [])"
  by (simp add: lk_def map_of_setdefault_append)

lemma keys_setdefault_append:
  "fst ` set (setdefault_append d k v) = insert k (fst ` set d)"
  by (induction d k v rule: setdefault_append.induct) auto

lemma vals_setdefault_append:
  "[] \<notin> snd ` set d \<Longrightarrow> [] \<notin> snd ` set (setdefault_append d k v)"
  by (induction d k v rule: setdefault_append.induct) auto

lemma distinct_setdefault_append:
  "distinct (map fst d) \<Longrightarrow> distinct (map fst (setdefault_append d k v))"
proof (induction d k v rule: setdefault_append.induct)
  case (1 k v)
  then show ?case by simp
next
  case (2 k' vs d k v)
  then show ?case
    using keys_setdefault_append[of d k v] by (auto simp: image_iff)
qed

lemma wf_dict_setdefault_append: "wf_dict d \<Longrightarrow> wf_dict (setdefault_append d k v)"
  by (simp add: wf_dict_def distinct_setdefault_append vals_setdefault_append)

lemma wf_dict_keys: "wf_dict d \<Longrightarrow> ob \<in> fst ` set d \<longleftrightarrow> lk d ob \<noteq> []"
proof -
  assume wf: "wf_dict d"
  show ?thesis
  proof
    assume "ob \<in> fst ` set d"
    then obtain ss where mem: "(ob, ss) \<in> set d" by auto
    with wf have "map_of d ob = Some ss" by (simp add: wf_dict_def)
    moreover from mem wf have "ss \<noteq> []" by (force simp: wf_dict_def)
    ultimately show "lk d ob \<noteq> []" by (simp add: lk_def)
  next
    assume "lk d ob \<noteq> []"
    then show "ob \<in> fst ` set d"
      by (auto simp: lk_def split: option.splits dest: map_of_SomeD intro: rev_image_eqI)
  qed
qed

subsection \<open>The timing loop\<close>

lemma first_time_Cons:
  "first_time (e # es) k = (if result_key e = k then Some (time e) else first_time es k)"
  by (simp add: first_time_def)

lemma ref_time_step_old:
  "map_of tms (result_key e) = Some t \<Longrightarrow> ref_time tms (e # es) k = ref_time tms es k"
  by (auto simp: ref_time_def first_time_Cons split: option.splits)

lemma ref_time_step_new:
  "map_of tms (result_key e) = None \<Longrightarrow>
   ref_time (dict_set tms (result_key e) (time e)) es k = ref_time tms (e # es) k"
  by (auto simp: ref_time_def first_time_Cons map_of_dict_set split: option.splits)

lemma fst_image_filter_neq: "fst ` {x \<in> A. fst x \<noteq> k} = fst ` A - {k}"
  by force

lemma per_image_times_keys: "fst ` set (per_image_times es) = result_key ` set es"
  by (induction es) (auto simp: fst_image_filter_neq)

lemma per_image_times_distinct: "distinct (map fst (per_image_times es))"
proof (induction es)
  case Nil
  then show ?case by simp
next
  case (Cons e es)
  have "distinct (map fst (filter (\<lambda>kv. fst kv \<noteq> result_key e) (per_image_times es)))"
    using Cons.IH by (simp add: distinct_map_filter)
  then show ?case by auto
qed

lemma per_image_times_first:
  "(k, t) \<in> set (per_image_times es) \<Longrightarrow> first_time es k = Some t"
  by (induction es) (auto simp: first_time_Cons)

lemma conflicts_ref_old:
  "map_of tms (result_key e) = Some t \<Longrightarrow> conflicts_ref tms (e # es) = conflicts_ref tms es"
  by (rule ext) (simp add: conflicts_ref_def ref_time_step_old)

lemma conflicts_ref_new:
  "map_of tms (result_key e) = None \<Longrightarrow>
   conflicts_ref (dict_set tms (result_key e) (time e)) es = conflicts_ref tms (e # es)"
  by (rule ext) (simp add: conflicts_ref_def ref_time_step_new)

lemma conflicts_ref_Nil: "conflicts_ref [] es = conflicting es"
  by (rule ext) (simp add: conflicts_ref_def conflicting_def ref_time_def)

lemma filter_keys_old:
  assumes "k \<in> fst ` set tms"
  shows "filter (\<lambda>kv. fst kv \<notin> fst ` set tms) ((k, t) # filter (\<lambda>kv. fst kv \<noteq> k) xs) =
     filter (\<lambda>kv. fst kv \<notin> fst ` set tms) xs"
proof -
  have "filter (\<lambda>kv. fst kv \<notin> fst ` set tms) (filter (\<lambda>kv. fst kv \<noteq> k) xs) =
      filter (\<lambda>kv. fst kv \<notin> fst ` set tms) xs"
    unfolding filter_filter using assms by (intro filter_cong) force+
  with assms show ?thesis by simp
qed

lemma filter_keys_new:
  assumes "k \<notin> fst ` set tms"
  shows "(tms @ [(k, t)]) @ filter (\<lambda>kv. fst kv \<notin> fst ` set (tms @ [(k, t)])) xs =
     tms @ filter (\<lambda>kv. fst kv \<notin> fst ` set tms) ((k, t) # filter (\<lambda>kv. fst kv \<noteq> k) xs)"
proof -
  have "filter (\<lambda>kv. fst kv \<notin> fst ` set (tms @ [(k, t)])) xs =
      filter (\<lambda>kv. fst kv \<notin> fst ` set tms) (filter (\<lambda>kv. fst kv \<noteq> k) xs)"
    unfolding filter_filter by (intro filter_cong) auto
  with assms show ?thesis by simp
qed

lemma times_loop_closed_form:
  "times_loop es tms =
     (case find (conflicts_ref tms (scanned es)) (scanned es) of
        Some e \<Rightarrow> Inl (TimingValueError (scene_id e) (im_id e))
      | None \<Rightarrow>
          Inr (\<forall>e\<in>set es. 0 \<le> time e,
               tms @ filter (\<lambda>kv. fst kv \<notin> fst ` set tms) (per_image_times (scanned es))))"
proof (induction es arbitrary: tms)
  case Nil
  then show ?case by (simp add: scanned_def)
next
  case (Cons e es)
  show ?case
  proof (cases "time e < 0")
    case True
    then show ?thesis by (auto simp: scanned_def)
  next
    case False
    then have sc: "scanned (e # es) = e # scanned es" by (simp add: scanned_def)
    from False have av: "(\<forall>x\<in>set (e # es). 0 \<le> time x) = (\<forall>x\<in>set es. 0 \<le> time x)" by simp
    show ?thesis
    proof (cases "map_of tms (result_key e)")
      case None
      then have notin: "result_key e \<notin> fst ` set tms" by (simp add: map_of_eq_None_iff)
      have ref: "ref_time tms (e # scanned es) (result_key e) = Some (time e)"
        using None by (simp add: ref_time_def first_time_Cons)
      have here: "\<not> conflicts_ref tms (e # scanned es) e"
        by (simp add: conflicts_ref_def ref)
      have "times_loop (e # es) tms = times_loop es (tms @ [(result_key e, time e)])"
        using False None by (simp add: dict_set_new)
      also have "\<dots> =
        (case find (conflicts_ref (tms @ [(result_key e, time e)]) (scanned es)) (scanned es) of
           Some e \<Rightarrow> Inl (TimingValueError (scene_id e) (im_id e))
         | None \<Rightarrow>
             Inr (\<forall>e\<in>set es. 0 \<le> time e,
                  (tms @ [(result_key e, time e)]) @
                  filter (\<lambda>kv. fst kv \<notin> fst ` set (tms @ [(result_key e, time e)]))
                    (per_image_times (scanned es))))"
        by (rule Cons.IH)
      also have "conflicts_ref (tms @ [(result_key e, time e)]) (scanned es) =
          conflicts_ref tms (e # scanned es)"
        using conflicts_ref_new[OF None, of "scanned es"] by (simp add: dict_set_new[OF None])
      finally have eq: "times_loop (e # es) tms =
        (case find (conflicts_ref tms (e # scanned es)) (scanned es) of
           Some e \<Rightarrow> Inl (TimingValueError (scene_id e) (im_id e))
         | None \<Rightarrow>
             Inr (\<forall>e\<in>set es. 0 \<le> time e,
                  (tms @ [(result_key e, time e)]) @
                  filter (\<lambda>kv. fst kv \<notin> fst ` set (tms @ [(result_key e, time e)]))
                    (per_image_times (scanned es))))" .
      have pit: "(tms @ [(result_key e, time e)]) @
            filter (\<lambda>kv. fst kv \<notin> fst ` set (tms @ [(result_key e, time e)]))
              (per_image_times (scanned es)) =
          tms @ filter (\<lambda>kv. fst kv \<notin> fst ` set tms) (per_image_times (e # scanned es))"
        using filter_keys_new[OF notin, of "time e" "per_image_times (scanned es)"] by simp
      show ?thesis
        unfolding eq sc av pit using here by simp
    next
      case (Some t)
      then have isin: "result_key e \<in> fst ` set tms"
        by (metis map_of_eq_None_iff option.distinct(1))
      have ref: "ref_time tms (e # scanned es) (result_key e) = Some t"
        using Some by (simp add: ref_time_def)
      show ?thesis
      proof (cases "\<bar>t - time e\<bar> > 0.001")
        case True
        then have "conflicts_ref tms (e # scanned es) e" by (simp add: conflicts_ref_def ref)
        with True False Some show ?thesis unfolding sc by simp
      next
        case ok: False
        then have here: "\<not> conflicts_ref tms (e # scanned es) e"
          by (simp add: conflicts_ref_def ref)
        have "times_loop (e # es) tms = times_loop es tms"
          using False Some ok by simp
        also have "\<dots> =
          (case find (conflicts_ref tms (scanned es)) (scanned es) of
             Some e \<Rightarrow> Inl (TimingValueError (scene_id e) (im_id e))
           | None \<Rightarrow>
               Inr (\<forall>e\<in>set es. 0 \<le> time e,
                    tms @ filter (\<lambda>kv. fst kv \<notin> fst ` set tms) (per_image_times (scanned es))))"
          by (rule Cons.IH)
        also have "conflicts_ref tms (scanned es) = conflicts_ref tms (e # scanned es)"
          using conflicts_ref_old[OF Some, of "scanned es"] by simp
        finally have eq: "times_loop (e # es) tms =
          (case find (conflicts_ref tms (e # scanned es)) (scanned es) of
             Some e \<Rightarrow> Inl (TimingValueError (scene_id e) (im_id e))
           | None \<Rightarrow>
               Inr (\<forall>e\<in>set es. 0 \<le> time e,
                    tms @ filter (\<lambda>kv. fst kv \<notin> fst ` set tms) (per_image_times (scanned es))))" .
        have pit: "tms @ filter (\<lambda>kv. fst kv \<notin> fst ` set tms) (per_image_times (e # scanned es)) =
            tms @ filter (\<lambda>kv. fst kv \<notin> fst ` set tms) (per_image_times (scanned es))"
          using filter_keys_old[OF isin, of "time e" "per_image_times (scanned es)"] by simp
        show ?thesis
          unfolding eq sc av pit using here by simp
      qed
    qed
  qed
qed

lemma scanned_all: "\<forall>e\<in>set es. 0 \<le> time e \<Longrightarrow> scanned es = es"
  by (simp add: scanned_def)

lemma find_takeWhile:
  "\<exists>x\<in>set (takeWhile P xs). Q x \<Longrightarrow> find Q (takeWhile P xs) = find Q xs"
  by (induction xs) (auto split: if_splits)

lemma first_time_scanned:
  assumes "e \<in> set (scanned es)"
  shows "first_time (scanned es) (result_key e) = first_time es (result_key e)"
  unfolding first_time_def scanned_def
  using assms by (subst find_takeWhile) (auto simp: scanned_def)

lemma conflicting_scanned:
  "e \<in> set (scanned es) \<Longrightarrow> conflicting (scanned es) e = conflicting es e"
  by (simp add: conflicting_def first_time_scanned)

lemma find_conflicting_scanned:
  "find (conflicting (scanned es)) (scanned es) = find (conflicting es) (scanned es)"
  by (rule find_cong) (simp_all add: conflicting_scanned)

lemma average_time_closed_form: "average_time_per_image es = timing_summary es"
proof (cases "\<forall>e\<in>set es. 0 \<le> time e")
  case True
  then have "\<not> (\<exists>e\<in>set es. time e < 0)" by (auto simp: not_less)
  with True show ?thesis
    by (simp add: average_time_per_image_def timing_summary_def times_loop_closed_form
        conflicts_ref_Nil find_conflicting_scanned scanned_all split: option.splits)
next
  case False
  then have "\<exists>e\<in>set es. time e < 0" by (auto simp: not_le)
  with False show ?thesis
    by (auto simp: average_time_per_image_def timing_summary_def times_loop_closed_form
        conflicts_ref_Nil find_conflicting_scanned split: option.splits)
qed

lemma conflicting_iff:
  "conflicting es e \<longleftrightarrow>
   (\<exists>t0. first_time es (result_key e) = Some t0 \<and> \<bar>t0 - time e\<bar> > 0.001)"
  by (simp add: conflicting_def split: option.splits)

lemma length_takeWhile_less:
  "k < length (takeWhile P xs) \<longleftrightarrow> k < length xs \<and> (\<forall>m\<le>k. P (xs ! m))"
proof (induction xs arbitrary: k)
  case Nil
  then show ?case by simp
next
  case (Cons x xs)
  show ?case
  proof (cases k)
    case 0
    then show ?thesis by simp
  next
    case (Suc j)
    have "(\<forall>m\<le>Suc j. P ((x # xs) ! m)) \<longleftrightarrow> P x \<and> (\<forall>m\<le>j. P (xs ! m))"
    proof
      assume a: "\<forall>m\<le>Suc j. P ((x # xs) ! m)"
      then have "P ((x # xs) ! 0)" by blast
      moreover have "P (xs ! m)" if "m \<le> j" for m
        using a that by (metis Suc_le_mono nth_Cons_Suc)
      ultimately show "P x \<and> (\<forall>m\<le>j. P (xs ! m))" by simp
    next
      assume a: "P x \<and> (\<forall>m\<le>j. P (xs ! m))"
      show "\<forall>m\<le>Suc j. P ((x # xs) ! m)"
      proof (intro allI impI)
        fix m assume "m \<le> Suc j"
        with a show "P ((x # xs) ! m)" by (cases m) auto
      qed
    qed
    with Suc Cons.IH[of j] show ?thesis by auto
  qed
qed

lemma scanned_index:
  "k < length (scanned es) \<longleftrightarrow> k < length es \<and> (\<forall>m\<le>k. 0 \<le> time (es ! m))"
  by (simp add: scanned_def length_takeWhile_less)

lemma scanned_nth: "k < length (scanned es) \<Longrightarrow> scanned es ! k = es ! k"
  by (simp add: scanned_def takeWhile_nth)

lemma timing_error_iff:
  "average_time_per_image es = Inl err \<longleftrightarrow>
   (\<exists>k<length es. (\<forall>m\<le>k. 0 \<le> time (es ! m)) \<and> conflicting es (es ! k) \<and>
      (\<forall>j<k. \<not> conflicting es (es ! j)) \<and>
      err = TimingValueError (scene_id (es ! k)) (im_id (es ! k)))"
proof
  assume "average_time_per_image es = Inl err"
  then obtain e where f: "find (conflicting es) (scanned es) = Some e"
    and err: "err = TimingValueError (scene_id e) (im_id e)"
    by (auto simp: average_time_closed_form timing_summary_def split: option.splits)
  from f obtain k where k: "k < length (scanned es)" "conflicting es (scanned es ! k)"
    "e = scanned es ! k" "\<forall>j<k. \<not> conflicting es (scanned es ! j)"
    unfolding find_Some_iff by blast
  have nth: "scanned es ! j = es ! j" if "j \<le> k" for j
    using that k(1) by (intro scanned_nth) simp
  from k(1) have "k < length es" "\<forall>m\<le>k. 0 \<le> time (es ! m)" by (simp_all add: scanned_index)
  moreover from k(2) nth[of k] have "conflicting es (es ! k)" by simp
  moreover from k(4) nth have "\<forall>j<k. \<not> conflicting es (es ! j)" by simp
  moreover from err k(3) nth[of k] have "err = TimingValueError (scene_id (es ! k)) (im_id (es ! k))"
    by simp
  ultimately show "\<exists>k<length es. (\<forall>m\<le>k. 0 \<le> time (es ! m)) \<and> conflicting es (es ! k) \<and>
      (\<forall>j<k. \<not> conflicting es (es ! j)) \<and>
      err = TimingValueError (scene_id (es ! k)) (im_id (es ! k))" by blast
next
  assume "\<exists>k<length es. (\<forall>m\<le>k. 0 \<le> time (es ! m)) \<and> conflicting es (es ! k) \<and>
      (\<forall>j<k. \<not> conflicting es (es ! j)) \<and>
      err = TimingValueError (scene_id (es ! k)) (im_id (es ! k))"
  then obtain k where k: "k < length es" "\<forall>m\<le>k. 0 \<le> time (es ! m)" "conflicting es (es ! k)"
    "\<forall>j<k. \<not> conflicting es (es ! j)"
    "err = TimingValueError (scene_id (es ! k)) (im_id (es ! k))" by blast
  from k(1,2) have ks: "k < length (scanned es)" by (simp add: scanned_index)
  have nth: "scanned es ! j = es ! j" if "j \<le> k" for j
    using that ks by (intro scanned_nth) simp
  have "find (conflicting es) (scanned es) = Some (es ! k)"
    unfolding find_Some_iff
  proof (intro exI[of _ k] conjI)
    show "k < length (scanned es)" by (rule ks)
    show "conflicting es (scanned es ! k)" using k(3) nth[of k] by simp
    show "es ! k = scanned es ! k" using nth[of k] by simp
    show "\<forall>j<k. \<not> conflicting es (scanned es ! j)" using k(4) nth by simp
  qed
  with k(5) show "average_time_per_image es = Inl err"
    by (simp add: average_time_closed_form timing_summary_def)
qed

lemma timing_sentinel:
  assumes "\<exists>e\<in>set es. time e < 0" "\<forall>e\<in>set (scanned es). \<not> conflicting es e"
  shows "average_time_per_image es = Inr (Num (- 1))"
proof -
  from assms(2) have "find (conflicting es) (scanned es) = None" by (simp add: find_None_iff)
  with assms(1) show ?thesis by (simp add: average_time_closed_form timing_summary_def)
qed

lemma timing_mean:
  assumes "\<forall>e\<in>set es. 0 \<le> time e" "\<forall>e\<in>set es. \<not> conflicting es e"
  shows "average_time_per_image es =
     Inr (np_mean (map (\<lambda>kv. Num (snd kv)) (per_image_times es)))"
proof -
  from assms have "find (conflicting es) (scanned es) = None"
    by (simp add: find_None_iff scanned_all)
  moreover from assms(1) have "\<not> (\<exists>e\<in>set es. time e < 0)" by (auto simp: not_less)
  ultimately show ?thesis by (simp add: average_time_closed_form timing_summary_def)
qed

lemma timing_Inr_value:
  assumes "average_time_per_image es = Inr v"
  shows "v = (if \<exists>e\<in>set es. time e < 0 then Num (- 1)
              else np_mean (map (\<lambda>kv. Num (snd kv)) (per_image_times es)))"
  using assms by (auto simp: average_time_closed_form timing_summary_def split: option.splits)

lemma conflicting_pair:
  assumes "conflicting es e"
  shows "\<exists>e0\<in>set es. result_key e0 = result_key e \<and> \<bar>time e0 - time e\<bar> > 0.001"
proof -
  from assms obtain t0 where "first_time es (result_key e) = Some t0" "\<bar>t0 - time e\<bar> > 0.001"
    by (auto simp: conflicting_iff)
  then obtain e0 where "find (\<lambda>x. result_key x = result_key e) es = Some e0" "time e0 = t0"
    by (auto simp: first_time_def)
  then have "e0 \<in> set es" "result_key e0 = result_key e"
    by (auto simp: find_Some_iff)
  with \<open>time e0 = t0\<close> \<open>\<bar>t0 - time e\<bar> > 0.001\<close> show ?thesis by auto
qed

lemma timing_consistent:
  assumes "\<forall>e1\<in>set es. \<forall>e2\<in>set es.
      result_key e1 = result_key e2 \<longrightarrow> \<bar>time e1 - time e2\<bar> \<le> 0.001"
  shows "\<exists>v. average_time_per_image es = Inr v"
proof -
  have "\<not> conflicting es e" if "e \<in> set es" for e
  proof
    assume "conflicting es e"
    from conflicting_pair[OF this] obtain e0 where "e0 \<in> set es" "result_key e0 = result_key e"
      "\<bar>time e0 - time e\<bar> > 0.001" by blast
    with assms that show False by fastforce
  qed
  moreover have "set (scanned es) \<subseteq> set es" by (auto simp: scanned_def dest: set_takeWhileD)
  ultimately have "find (conflicting es) (scanned es) = None" by (auto simp: find_None_iff)
  then show ?thesis by (simp add: average_time_closed_form timing_summary_def)
qed

lemma least_conflict:
  assumes "conflicting es (es ! n)"
  shows "\<exists>k\<le>n. conflicting es (es ! k) \<and> (\<forall>j<k. \<not> conflicting es (es ! j))"
proof -
  let ?k = "LEAST k. conflicting es (es ! k)"
  have "conflicting es (es ! ?k)" using assms by (rule LeastI)
  moreover have "?k \<le> n" using assms by (rule Least_le)
  moreover have "\<forall>j<?k. \<not> conflicting es (es ! j)" using not_less_Least by blast
  ultimately show ?thesis by blast
qed

subsection \<open>The parameters and the shape of a successful run\<close>

lemma etype_mssd [simp]: "etype mssd_error = ''mssd''" by (simp add: mssd_error_def)
lemma etype_mspd [simp]: "etype mspd_error = ''mspd''" by (simp add: mspd_error_def)

lemma correct_th_mssd:
  "correct_th mssd_error = [[0.05], [0.1], [0.15], [0.2], [0.25], [0.3], [0.35], [0.4], [0.45], [0.5]]"
  by (simp add: mssd_error_def arange_def upt_rec)

lemma correct_th_mspd:
  "correct_th mspd_error = [[5], [10], [15], [20], [25], [30], [35], [40], [45], [50]]"
  by (simp add: mspd_error_def arange_def upt_rec)

lemma calc_final_scores_Inr:
  assumes "calc_final_scores m t = Inr fs"
  shows "\<exists>a b. dict_get m ''mssd'' = Inr a \<and> dict_get m ''mspd'' = Inr b \<and>
     fs = [(''bop24_mAP_mssd'', a), (''bop24_mAP_mspd'', b), (''bop24_mAP'', np_mean [a, b]),
           (''bop24_average_time_per_image'', t)]"
  using assms
  by (auto simp: calc_final_scores_def errors_def split: sum.splits)

lemma loop1_errors_Inr:
  assumes "loop1 nw env errors [] = (tr, Inr m)"
  shows "\<exists>tr1 tr2 a b. eval_error_type nw env mssd_error = (tr1, Inr a) \<and>
     eval_error_type nw env mspd_error = (tr2, Inr b) \<and>
     m = [(''mssd'', a), (''mspd'', b)] \<and> tr = tr1 @ tr2"
  using assms
  by (auto simp: errors_def split: sum.splits prod.splits)

lemma eval_error_type_Inr:
  assumes "eval_error_type nw env err = (tr, Inr a)"
  shows "calc_errors_rc env (etype err) = 0 \<and> snd (calc_mAP env err) = Inr a \<and>
     snd (run_score_tasks nw env err) = Inr () \<and>
     tr = CalcErrors (etype err) 0 # fst (run_score_tasks nw env err) @ fst (calc_mAP env err)"
  using assms
  by (auto simp: eval_error_type_def Let_def split: sum.splits prod.splits if_splits)

lemma evaluate_Inr:
  assumes "evaluate nw env = (tr, Inr fs)"
  shows "\<exists>t tr1 tr2 a b. average_time_per_image (ests env) = Inr t \<and>
     eval_error_type nw env mssd_error = (tr1, Inr a) \<and>
     eval_error_type nw env mspd_error = (tr2, Inr b) \<and>
     fs = [(''bop24_mAP_mssd'', a), (''bop24_mAP_mspd'', b), (''bop24_mAP'', np_mean [a, b]),
           (''bop24_average_time_per_image'', t)] \<and>
     tr = tr1 @ tr2 @ [SaveJson fs]"
proof -
  from assms obtain t where t: "average_time_per_image (ests env) = Inr t"
    by (auto simp: evaluate_def split: sum.splits)
  from assms t obtain tr0 m where l1: "loop1 nw env errors [] = (tr0, Inr m)"
    and fin: "calc_final_scores m t = Inr fs" and tr: "tr = tr0 @ [SaveJson fs]"
    by (auto simp: evaluate_def split: sum.splits prod.splits)
  from loop1_errors_Inr[OF l1] obtain tr1 tr2 a b where
    e1: "eval_error_type nw env mssd_error = (tr1, Inr a)" and
    e2: "eval_error_type nw env mspd_error = (tr2, Inr b)" and
    m: "m = [(''mssd'', a), (''mspd'', b)]" and tr0: "tr0 = tr1 @ tr2" by blast
  from calc_final_scores_Inr[OF fin] m
  have "fs = [(''bop24_mAP_mssd'', a), (''bop24_mAP_mspd'', b), (''bop24_mAP'', np_mean [a, b]),
           (''bop24_average_time_per_image'', t)]"
    by (auto simp: dict_get_def)
  with t e1 e2 tr tr0 show ?thesis by auto
qed

lemmas eval_defs = evaluate_def average_time_per_image_def np_mean_def errors_def
     eval_error_type_def run_score_tasks_def calc_mAP_def correct_th_mssd correct_th_mspd
     calc_final_scores_def dict_get_def result_key_def one_object_file_def

subsection \<open>The aggregation loops\<close>

lemma per_threshold_lk:
  "per_threshold sc nipo (d, ign) = Inr (d', ign') \<Longrightarrow>
   lk d' ob = lk d ob @ file_scores sc nipo ob"
proof (induction sc nipo "(d, ign)" arbitrary: d ign rule: per_threshold.induct)
  case (1 nipo)
  then show ?case by (simp add: file_scores_def)
next
  case (2 k s rest nipo per_object ignored)
  then show ?case
    by (auto simp: dict_get_def file_scores_def lk_setdefault_append split: option.splits if_splits)
qed

lemma per_threshold_wf:
  "per_threshold sc nipo (d, ign) = Inr (d', ign') \<Longrightarrow> wf_dict d \<Longrightarrow> wf_dict d'"
proof (induction sc nipo "(d, ign)" arbitrary: d ign rule: per_threshold.induct)
  case (1 nipo)
  then show ?case by simp
next
  case (2 k s rest nipo per_object ignored)
  then show ?case
    by (auto simp: dict_get_def wf_dict_setdefault_append split: option.splits if_splits)
qed

lemma per_threshold_ignored:
  "per_threshold sc nipo (d, ign) = Inr (d', ign') \<Longrightarrow>
   set ign' = set ign \<union>
     {ob \<in> fst ` set sc. \<not> (case map_of nipo ob of Some n \<Rightarrow> 0 < n | None \<Rightarrow> False)}"
proof (induction sc nipo "(d, ign)" arbitrary: d ign rule: per_threshold.induct)
  case (1 nipo)
  then show ?case by simp
next
  case (2 k s rest nipo per_object ignored)
  then show ?case
    by (auto simp: dict_get_def split: option.splits if_splits)
qed

lemma per_threshold_total:
  "fst ` set sc \<subseteq> fst ` set nipo \<Longrightarrow> \<exists>st'. per_threshold sc nipo st = Inr st'"
proof (induction sc nipo st rule: per_threshold.induct)
  case (1 nipo st)
  then show ?case by simp
next
  case (2 k s rest nipo per_object ignored)
  from "2.prems" have "k \<in> fst ` set nipo" by simp
  then obtain n where n: "map_of nipo k = Some n"
    by (metis map_of_eq_None_iff not_Some_eq)
  from "2.prems" have rest: "fst ` set rest \<subseteq> fst ` set nipo" by simp
  show ?case
  proof (cases "0 < n")
    case True
    with n "2.IH"(1)[of n] rest show ?thesis by (simp add: dict_get_def)
  next
    case False
    with n "2.IH"(2)[of n] rest show ?thesis by (simp add: dict_get_def)
  qed
qed

lemma file_scores_eq:
  "file_scores (scores f) (num_instances_per_object f) ob =
   map snd (filter (\<lambda>ks. fst ks = ob \<and> positive f ob) (scores f))"
  by (simp add: file_scores_def positive_def)

lemma loaded_Cons_Inr:
  "load_scores env t th = Inr f \<Longrightarrow> loaded env t (th # ths) = f # loaded env t ths"
  by (simp add: loaded_def)

lemma loop3_lk:
  "loop3 env t ths (d, ign) = (tr, Inr (d', ign')) \<Longrightarrow>
   lk d' ob = lk d ob @ object_scores (loaded env t ths) ob"
proof (induction ths arbitrary: d ign tr)
  case Nil
  then show ?case by (simp add: loaded_def object_scores_def)
next
  case (Cons th ths)
  from Cons.prems obtain f where f: "load_scores env t th = Inr f"
    by (auto split: sum.splits)
  from Cons.prems f obtain d1 ign1 where
    pt: "per_threshold (scores f) (num_instances_per_object f) (d, ign) = Inr (d1, ign1)"
    by (auto split: sum.splits prod.splits)
  from Cons.prems f pt obtain tr' where rest: "loop3 env t ths (d1, ign1) = (tr', Inr (d', ign'))"
    by (auto split: sum.splits prod.splits)
  have "lk d' ob = lk d1 ob @ object_scores (loaded env t ths) ob"
    by (rule Cons.IH[OF rest])
  also have "lk d1 ob = lk d ob @ file_scores (scores f) (num_instances_per_object f) ob"
    by (rule per_threshold_lk[OF pt])
  finally show ?case
    by (simp add: loaded_Cons_Inr[OF f] object_scores_def file_scores_eq)
qed

lemma loop3_wf:
  "loop3 env t ths (d, ign) = (tr, Inr (d', ign')) \<Longrightarrow> wf_dict d \<Longrightarrow> wf_dict d'"
proof (induction ths arbitrary: d ign tr)
  case Nil
  then show ?case by simp
next
  case (Cons th ths)
  from Cons.prems obtain f where f: "load_scores env t th = Inr f"
    by (auto split: sum.splits)
  from Cons.prems f obtain d1 ign1 where
    pt: "per_threshold (scores f) (num_instances_per_object f) (d, ign) = Inr (d1, ign1)"
    by (auto split: sum.splits prod.splits)
  from Cons.prems f pt obtain tr' where rest: "loop3 env t ths (d1, ign1) = (tr', Inr (d', ign'))"
    by (auto split: sum.splits prod.splits)
  from per_threshold_wf[OF pt Cons.prems(2)] Cons.IH[OF rest] show ?case by simp
qed

lemma loop3_ignored:
  "loop3 env t ths (d, ign) = (tr, Inr (d', ign')) \<Longrightarrow>
   set ign' = set ign \<union> ignored_objects (loaded env t ths)"
proof (induction ths arbitrary: d ign tr)
  case Nil
  then show ?case by (simp add: loaded_def ignored_objects_def)
next
  case (Cons th ths)
  from Cons.prems obtain f where f: "load_scores env t th = Inr f"
    by (auto split: sum.splits)
  from Cons.prems f obtain d1 ign1 where
    pt: "per_threshold (scores f) (num_instances_per_object f) (d, ign) = Inr (d1, ign1)"
    by (auto split: sum.splits prod.splits)
  from Cons.prems f pt obtain tr' where rest: "loop3 env t ths (d1, ign1) = (tr', Inr (d', ign'))"
    by (auto split: sum.splits prod.splits)
  have "set ign' = set ign1 \<union> ignored_objects (loaded env t ths)"
    by (rule Cons.IH[OF rest])
  moreover have "set ign1 = set ign \<union> {ob \<in> fst ` set (scores f). \<not> positive f ob}"
    using per_threshold_ignored[OF pt] by (simp add: positive_def)
  ultimately show ?case
    by (auto simp: loaded_Cons_Inr[OF f] ignored_objects_def)
qed

lemma loop3_loads:
  "loop3 env t ths st = (tr, Inr st') \<Longrightarrow> map (load_scores env t) ths = map Inr (loaded env t ths)"
proof (induction ths arbitrary: st tr)
  case Nil
  then show ?case by (simp add: loaded_def)
next
  case (Cons th ths)
  from Cons.prems obtain f where f: "load_scores env t th = Inr f"
    by (auto split: sum.splits)
  from Cons.prems f obtain st1 tr' where rest: "loop3 env t ths st1 = (tr', Inr st')"
    by (auto split: sum.splits prod.splits)
  from Cons.IH[OF rest] f show ?case by (simp add: loaded_Cons_Inr[OF f])
qed

lemma loop3_total:
  assumes "\<forall>th\<in>set ths. \<exists>f. load_scores env t th = Inr f"
    and "\<forall>f\<in>set (loaded env t ths). fst ` set (scores f) \<subseteq> fst ` set (num_instances_per_object f)"
  shows "\<exists>st'. snd (loop3 env t ths st) = Inr st'"
  using assms
proof (induction ths arbitrary: st)
  case Nil
  then show ?case by simp
next
  case (Cons th ths)
  from Cons.prems(1) obtain f where f: "load_scores env t th = Inr f" by auto
  from Cons.prems(2) f have keys: "fst ` set (scores f) \<subseteq> fst ` set (num_instances_per_object f)"
    and rest: "\<forall>f\<in>set (loaded env t ths). fst ` set (scores f) \<subseteq> fst ` set (num_instances_per_object f)"
    by (simp_all add: loaded_Cons_Inr[OF f])
  from per_threshold_total[OF keys] obtain st1 where
    pt: "per_threshold (scores f) (num_instances_per_object f) st = Inr st1" by blast
  from Cons.IH[of st1] Cons.prems(1) rest obtain st' where "snd (loop3 env t ths st1) = Inr st'"
    by auto
  with f pt show ?case by (auto split: prod.splits)
qed

text \<open>Loop 2.\<close>

lemma loop2_Inr:
  "loop2 d ign = Inr ms \<Longrightarrow>
   ms = map (\<lambda>kv. np_mean (map Num (snd kv))) d \<and> fst ` set d \<inter> set ign = {}"
  by (induction d ign arbitrary: ms rule: loop2.induct) (auto split: if_splits sum.splits)

lemma loop2_Inl: "loop2 d ign = Inl e \<Longrightarrow> e = AssertionError \<and> fst ` set d \<inter> set ign \<noteq> {}"
  by (induction d ign rule: loop2.induct) (auto split: if_splits sum.splits)

lemma np_mean_Num: "ss \<noteq> [] \<Longrightarrow> np_mean (map Num ss) = Num (mean ss)"
  by (auto simp: np_mean_def mean_def comp_def)

lemma set_averaged_objects: "set (averaged_objects fs) = {ob. object_scores fs ob \<noteq> []}"
proof -
  have "object_scores fs ob \<noteq> [] \<Longrightarrow> ob \<in> set (concat (map (\<lambda>f. map fst (scores f)) fs))" for ob
    by (force simp: object_scores_def filter_empty_conv)
  then show ?thesis by (auto simp: averaged_objects_def)
qed

lemma mean_over_distinct:
  assumes "distinct xs" "distinct ys" "set xs = set ys"
  shows "mean (map g xs) = mean (map g ys)"
proof -
  have "sum_list (map g xs) = sum_list (map g ys)"
    using assms by (simp add: sum_list_distinct_conv_sum_set)
  moreover have "length xs = length ys"
    using assms by (metis distinct_card)
  ultimately show ?thesis by (simp add: mean_def)
qed

lemma mAP_of_dict:
  assumes wf: "wf_dict d" and lk: "\<And>ob. lk d ob = object_scores fs ob"
  shows "np_mean (map (\<lambda>kv. np_mean (map Num (snd kv))) d) = spec_mAP fs"
proof -
  have keys: "set (map fst d) = set (averaged_objects fs)"
    using wf_dict_keys[OF wf] lk by (auto simp: set_averaged_objects)
  have val: "snd kv = object_scores fs (fst kv)" if "kv \<in> set d" for kv
  proof -
    from that wf have "map_of d (fst kv) = Some (snd kv)" by (simp add: wf_dict_def)
    then have "lk d (fst kv) = snd kv" by (simp add: lk_def)
    with lk show ?thesis by simp
  qed
  have ne: "snd kv \<noteq> []" if "kv \<in> set d" for kv
    using that wf by (force simp: wf_dict_def)
  have step: "map (\<lambda>kv. np_mean (map Num (snd kv))) d
      = map Num (map (\<lambda>ob. mean (object_scores fs ob)) (map fst d))"
    using val ne by (auto simp: np_mean_Num)
  show ?thesis
  proof (cases "d = []")
    case True
    with keys show ?thesis by (simp add: spec_mAP_def np_mean_def)
  next
    case False
    with keys have ne': "averaged_objects fs \<noteq> []" by auto
    have "np_mean (map (\<lambda>kv. np_mean (map Num (snd kv))) d)
        = Num (mean (map (\<lambda>ob. mean (object_scores fs ob)) (map fst d)))"
      unfolding step using False by (intro np_mean_Num) simp
    also have "mean (map (\<lambda>ob. mean (object_scores fs ob)) (map fst d))
        = mean (map (\<lambda>ob. mean (object_scores fs ob)) (averaged_objects fs))"
      using wf keys by (intro mean_over_distinct) (simp_all add: wf_dict_def averaged_objects_def)
    finally show ?thesis using ne' by (simp add: spec_mAP_def)
  qed
qed

lemma wf_dict_Nil: "wf_dict []" by (simp add: wf_dict_def)
lemma lk_Nil: "lk [] ob = []" by (simp add: lk_def)

lemma calc_mAP_Inr:
  assumes "calc_mAP env err = (tr, Inr v)"
  shows "\<exists>d ign. loop3 env (etype err) (correct_th err) ([], []) = (tr, Inr (d, ign)) \<and>
     loop2 d ign = Inr (map (\<lambda>kv. np_mean (map Num (snd kv))) d) \<and>
     v = np_mean (map (\<lambda>kv. np_mean (map Num (snd kv))) d)"
  using assms
  by (auto simp: calc_mAP_def split: prod.splits sum.splits dest: loop2_Inr)

subsection \<open>The mAP of one error type\<close>

lemma calc_mAP_state:
  assumes "calc_mAP env err = (tr, Inr v)"
  shows "\<exists>d ign. loop3 env (etype err) (correct_th err) ([], []) = (tr, Inr (d, ign)) \<and>
     v = np_mean (map (\<lambda>kv. np_mean (map Num (snd kv))) d) \<and>
     wf_dict d \<and> (\<forall>ob. lk d ob = object_scores (loaded_files env err) ob) \<and>
     set ign = ignored_objects (loaded_files env err) \<and>
     fst ` set d = set (averaged_objects (loaded_files env err)) \<and>
     fst ` set d \<inter> set ign = {}"
proof -
  from calc_mAP_Inr[OF assms] obtain d ign where
    l3: "loop3 env (etype err) (correct_th err) ([], []) = (tr, Inr (d, ign))" and
    l2: "loop2 d ign = Inr (map (\<lambda>kv. np_mean (map Num (snd kv))) d)" and
    v: "v = np_mean (map (\<lambda>kv. np_mean (map Num (snd kv))) d)" by blast
  have wf: "wf_dict d" using loop3_wf[OF l3 wf_dict_Nil] .
  have lkd: "lk d ob = object_scores (loaded_files env err) ob" for ob
    using loop3_lk[OF l3, of ob] by (simp add: lk_Nil loaded_files_def)
  have ign: "set ign = ignored_objects (loaded_files env err)"
    using loop3_ignored[OF l3] by (simp add: loaded_files_def)
  have keys: "fst ` set d = set (averaged_objects (loaded_files env err))"
    using wf_dict_keys[OF wf] lkd by (auto simp: set_averaged_objects)
  from loop2_Inr[OF l2] have "fst ` set d \<inter> set ign = {}" by simp
  with l3 v wf lkd ign keys show ?thesis by blast
qed

lemma calc_mAP_eq_spec:
  assumes "calc_mAP env err = (tr, Inr v)"
  shows "v = spec_mAP (loaded_files env err)"
proof -
  from calc_mAP_state[OF assms] obtain d ign where
    "v = np_mean (map (\<lambda>kv. np_mean (map Num (snd kv))) d)" "wf_dict d"
    "\<forall>ob. lk d ob = object_scores (loaded_files env err) ob" by (elim exE conjE)
  then show ?thesis using mAP_of_dict[of d "loaded_files env err"] by simp
qed

lemma zero_count_not_averaged:
  assumes "\<forall>f\<in>set fs. map_of (num_instances_per_object f) ob = Some 0"
  shows "object_scores fs ob = []"
  using assms by (auto simp: object_scores_def positive_def filter_empty_conv)

lemma c1_calc: "calc_mAP c1_env c1_error =
    ([LoadScores ''mssd'' [0.05], LoadScores ''mssd'' [0.1], LoadScores ''mssd'' [0.15]],
     Inr (Num 0.7))"
  by (simp add: calc_mAP_def c1_env_def c1_error_def abc_file_def dict_get_def np_mean_def)

lemma calc_mAP_loop3:
  assumes "loop3 env (etype err) (correct_th err) ([], []) = (tr, Inr (d, ign))"
  shows "snd (calc_mAP env err) =
     (if fst ` set d \<inter> set ign = {}
      then Inr (np_mean (map (\<lambda>kv. np_mean (map Num (snd kv))) d))
      else Inl AssertionError)"
proof (cases "loop2 d ign")
  case (Inl e)
  from loop2_Inl[OF Inl] assms Inl show ?thesis by (simp add: calc_mAP_def)
next
  case (Inr ms)
  from loop2_Inr[OF Inr] assms Inr show ?thesis by (simp add: calc_mAP_def)
qed

lemma loop3_reads_all:
  assumes loads: "\<forall>th\<in>set (correct_th err). \<exists>f. load_scores env (etype err) th = Inr f"
    and keys: "\<forall>f\<in>set (loaded_files env err).
        fst ` set (scores f) \<subseteq> fst ` set (num_instances_per_object f)"
  shows "\<exists>tr d ign. loop3 env (etype err) (correct_th err) ([], []) = (tr, Inr (d, ign)) \<and>
     wf_dict d \<and> (\<forall>ob. lk d ob = object_scores (loaded_files env err) ob) \<and>
     set ign = ignored_objects (loaded_files env err)"
proof -
  from loop3_total[OF loads, of "([], [])"] keys
  obtain st' where "snd (loop3 env (etype err) (correct_th err) ([], [])) = Inr st'"
    by (auto simp: loaded_files_def)
  then obtain tr d ign where
    l3: "loop3 env (etype err) (correct_th err) ([], []) = (tr, Inr (d, ign))"
    by (cases st', cases "loop3 env (etype err) (correct_th err) ([], [])") auto
  have wf: "wf_dict d" using loop3_wf[OF l3 wf_dict_Nil] .
  have lkd: "\<forall>ob. lk d ob = object_scores (loaded_files env err) ob"
    using loop3_lk[OF l3] by (simp add: lk_Nil loaded_files_def)
  have ign: "set ign = ignored_objects (loaded_files env err)"
    using loop3_ignored[OF l3] by (simp add: loaded_files_def)
  from l3 wf lkd ign show ?thesis by (intro exI[of _ tr] exI[of _ d] exI[of _ ign] conjI)
qed

lemma object_scores_positive:
  assumes "f \<in> set fs" "(ob, s) \<in> set (scores f)" "map_of (num_instances_per_object f) ob = Some n" "0 < n"
  shows "object_scores fs ob \<noteq> []"
proof -
  from assms have "positive f ob" by (simp add: positive_def)
  with assms(2) have "filter (\<lambda>ks. fst ks = ob \<and> positive f ob) (scores f) \<noteq> []"
    by (force simp: filter_empty_conv)
  with assms(1) show ?thesis by (auto simp: object_scores_def)
qed

lemma ignored_objects_zero:
  assumes "f \<in> set fs" "(ob, s) \<in> set (scores f)" "map_of (num_instances_per_object f) ob = Some 0"
  shows "ob \<in> ignored_objects fs"
  using assms by (force simp: ignored_objects_def positive_def)

lemma eval_error_type_snd:
  assumes "calc_errors_rc env (etype err) = 0" "snd (run_score_tasks nw env err) = Inr ()"
  shows "snd (eval_error_type nw env err) = snd (calc_mAP env err)"
  using assms by (auto simp: eval_error_type_def split: prod.splits sum.splits)

lemma evaluate_total:
  assumes "average_time_per_image (ests env) = Inr t"
    and "snd (eval_error_type nw env mssd_error) = Inr a"
    and "snd (eval_error_type nw env mspd_error) = Inr b"
  shows "snd (evaluate nw env) =
     Inr [(''bop24_mAP_mssd'', a), (''bop24_mAP_mspd'', b), (''bop24_mAP'', np_mean [a, b]),
          (''bop24_average_time_per_image'', t)]"
proof -
  obtain tr1 where e1: "eval_error_type nw env mssd_error = (tr1, Inr a)"
    using assms(2) by (cases "eval_error_type nw env mssd_error") auto
  obtain tr2 where e2: "eval_error_type nw env mspd_error = (tr2, Inr b)"
    using assms(3) by (cases "eval_error_type nw env mspd_error") auto
  have l1: "loop1 nw env errors [] = (tr1 @ tr2, Inr [(''mssd'', a), (''mspd'', b)])"
    by (simp add: errors_def e1 e2)
  have fin: "calc_final_scores [(''mssd'', a), (''mspd'', b)] t =
     Inr [(''bop24_mAP_mssd'', a), (''bop24_mAP_mspd'', b), (''bop24_mAP'', np_mean [a, b]),
          (''bop24_average_time_per_image'', t)]"
    by (simp add: calc_final_scores_def errors_def dict_get_def)
  show ?thesis by (simp add: evaluate_def assms(1) l1 fin)
qed

lemma calc_mAP_empty:
  assumes loads: "\<forall>th\<in>set (correct_th err). \<exists>f. load_scores env (etype err) th = Inr f"
    and nonpos: "\<forall>f\<in>set (loaded_files env err). \<forall>ob\<in>fst ` set (scores f).
        \<exists>n\<le>0. map_of (num_instances_per_object f) ob = Some n"
  shows "snd (calc_mAP env err) = Inr NaN"
proof -
  have keys: "\<forall>f\<in>set (loaded_files env err).
        fst ` set (scores f) \<subseteq> fst ` set (num_instances_per_object f)"
  proof (intro ballI subsetI)
    fix f ob assume "f \<in> set (loaded_files env err)" "ob \<in> fst ` set (scores f)"
    with nonpos obtain n where "map_of (num_instances_per_object f) ob = Some n" by blast
    then show "ob \<in> fst ` set (num_instances_per_object f)"
      by (metis map_of_eq_None_iff option.distinct(1))
  qed
  from loop3_reads_all[OF loads keys] obtain tr d ign where
    l3: "loop3 env (etype err) (correct_th err) ([], []) = (tr, Inr (d, ign))" and
    wf: "wf_dict d" and lkd: "\<forall>ob. lk d ob = object_scores (loaded_files env err) ob"
    by (elim exE conjE)
  have "object_scores (loaded_files env err) ob = []" for ob
  proof -
    have "\<not> positive f ob" if "f \<in> set (loaded_files env err)" "(ob, s) \<in> set (scores f)" for f s
    proof -
      from that have "ob \<in> fst ` set (scores f)" by force
      with nonpos that(1) obtain n where "n \<le> 0" "map_of (num_instances_per_object f) ob = Some n"
        by blast
      then show ?thesis by (simp add: positive_def)
    qed
    then show ?thesis by (auto simp: object_scores_def filter_empty_conv)
  qed
  with lkd have "ob \<notin> fst ` set d" for ob using wf_dict_keys[OF wf, of ob] by simp
  then have "d = []" by (cases d) force+
  with calc_mAP_loop3[OF l3] show ?thesis by (simp add: np_mean_def)
qed

subsection \<open>Event traces\<close>

lemma ordered_from_Nil: "ordered_from S []"
  by (simp add: ordered_from_def)

lemma ordered_from_Cons:
  "ordered_from S (e # tr) \<longleftrightarrow> ok_after S e \<and> ordered_from (insert e S) tr"
proof
  assume a: "ordered_from S (e # tr)"
  have "ok_after S e" using a by (force simp: ordered_from_def)
  moreover have "ordered_from (insert e S) tr"
    unfolding ordered_from_def
  proof (intro allI impI)
    fix i assume "i < length tr"
    with a have "ok_after (S \<union> set (take (Suc i) (e # tr))) ((e # tr) ! Suc i)"
      unfolding ordered_from_def by (metis Suc_less_eq length_Cons)
    then show "ok_after (insert e S \<union> set (take i tr)) (tr ! i)" by simp
  qed
  ultimately show "ok_after S e \<and> ordered_from (insert e S) tr" ..
next
  assume a: "ok_after S e \<and> ordered_from (insert e S) tr"
  show "ordered_from S (e # tr)"
    unfolding ordered_from_def
  proof (intro allI impI)
    fix i assume i: "i < length (e # tr)"
    show "ok_after (S \<union> set (take i (e # tr))) ((e # tr) ! i)"
    proof (cases i)
      case 0
      with a show ?thesis by simp
    next
      case (Suc j)
      with i have "j < length tr" by simp
      with a have "ok_after (insert e S \<union> set (take j tr)) (tr ! j)"
        by (simp add: ordered_from_def)
      with Suc show ?thesis by simp
    qed
  qed
qed

lemma ordered_from_append:
  "ordered_from S (xs @ ys) \<longleftrightarrow> ordered_from S xs \<and> ordered_from (S \<union> set xs) ys"
proof (induction xs arbitrary: S)
  case Nil
  then show ?case by (simp add: ordered_from_Nil)
next
  case (Cons x xs)
  have "insert x S \<union> set xs = S \<union> set (x # xs)" by auto
  with Cons show ?case by (simp add: ordered_from_Cons)
qed

lemma run_pool_Cons:
  "run_pool env t (th # ths) =
   TaskStart t th # TaskEnd t th (calc_scores_rc env t th) # run_pool env t ths"
  by (simp add: run_pool_def)

lemma run_pool_append: "run_pool env t (xs @ ys) = run_pool env t xs @ run_pool env t ys"
  by (simp add: run_pool_def)

lemma run_sequential_ok:
  "\<forall>th\<in>set ths. calc_scores_rc env t th = 0 \<Longrightarrow>
   run_sequential env t ths = (run_pool env t ths, Inr ())"
  by (induction ths) (simp_all add: run_pool_def)

lemma run_sequential_fail:
  "\<forall>x\<in>set ths1. calc_scores_rc env t x = 0 \<Longrightarrow> calc_scores_rc env t th \<noteq> 0 \<Longrightarrow>
   run_sequential env t (ths1 @ th # ths2) =
     (run_pool env t (ths1 @ [th]),
      Inl (RuntimeError ''Calculation of performance scores failed.''))"
  by (induction ths1) (simp_all add: run_pool_def)

lemma set_run_pool:
  "set (run_pool env t ths) =
   (\<Union>th\<in>set ths. {TaskStart t th, TaskEnd t th (calc_scores_rc env t th)})"
  by (auto simp: run_pool_def)

lemma ordered_from_run_pool:
  "CalcErrors t 0 \<in> S \<Longrightarrow> ordered_from S (run_pool env t ths)"
proof (induction ths arbitrary: S)
  case Nil
  then show ?case by (simp add: run_pool_def ordered_from_Nil)
next
  case (Cons th ths)
  have "ordered_from (insert (TaskEnd t th (calc_scores_rc env t th)) (insert (TaskStart t th) S))
      (run_pool env t ths)"
    by (rule Cons.IH) (simp add: Cons.prems)
  with Cons.prems show ?case
    by (simp add: run_pool_def ordered_from_Cons ok_after_def)
qed

lemma closed_run_pool: "tasks_closed S \<Longrightarrow> tasks_closed (S \<union> set (run_pool env t ths))"
  unfolding tasks_closed_def set_run_pool by blast

lemma loop3_trace:
  "loop3 env t ths st = (tr, r) \<Longrightarrow>
   \<exists>n\<le>length ths. tr = map (LoadScores t) (take n ths) \<and> (\<forall>st'. r = Inr st' \<longrightarrow> n = length ths)"
proof (induction ths arbitrary: st tr r)
  case Nil
  then show ?case by simp
next
  case (Cons th ths)
  show ?case
  proof (cases "load_scores env t th")
    case (Inl e)
    with Cons.prems show ?thesis by (intro exI[of _ 1]) auto
  next
    case (Inr f)
    show ?thesis
    proof (cases "per_threshold (scores f) (num_instances_per_object f) st")
      case (Inl e)
      with Inr Cons.prems show ?thesis by (intro exI[of _ 1]) auto
    next
      case st1: (Inr st1)
      with Inr Cons.prems obtain tr' where rest: "loop3 env t ths st1 = (tr', r)"
        and tr: "tr = LoadScores t th # tr'" by (auto split: prod.splits)
      from Cons.IH[OF rest] obtain n where "n \<le> length ths" "tr' = map (LoadScores t) (take n ths)"
        "\<forall>st'. r = Inr st' \<longrightarrow> n = length ths" by blast
      with tr show ?thesis by (intro exI[of _ "Suc n"]) simp
    qed
  qed
qed

lemma ordered_from_loads:
  assumes "tasks_closed S" "\<forall>th'\<in>set (thresholds t). \<exists>rc. TaskEnd t th' rc \<in> S"
  shows "ordered_from S (map (LoadScores t) ths)"
  using assms
proof (induction ths arbitrary: S)
  case Nil
  then show ?case by (simp add: ordered_from_Nil)
next
  case (Cons th ths)
  have "tasks_closed (insert (LoadScores t th) S)" using Cons.prems(1) by (auto simp: tasks_closed_def)
  moreover have "\<forall>th'\<in>set (thresholds t). \<exists>rc. TaskEnd t th' rc \<in> insert (LoadScores t th) S"
    using Cons.prems(2) by auto
  ultimately have "ordered_from (insert (LoadScores t th) S) (map (LoadScores t) ths)"
    by (rule Cons.IH)
  moreover have "ok_after S (LoadScores t th)"
    using Cons.prems by (simp add: ok_after_def tasks_closed_def)
  ultimately show ?case by (simp add: ordered_from_Cons)
qed

lemma closed_loads:
  assumes "tasks_closed S"
  shows "tasks_closed (S \<union> set (map (LoadScores t) ths))"
  unfolding tasks_closed_def
proof (intro allI impI)
  fix ta th assume "TaskStart ta th \<in> S \<union> set (map (LoadScores t) ths)"
  then have "TaskStart ta th \<in> S" by auto
  with assms obtain rc where "TaskEnd ta th rc \<in> S" unfolding tasks_closed_def by blast
  then show "\<exists>rc. TaskEnd ta th rc \<in> S \<union> set (map (LoadScores t) ths)" by blast
qed

text \<open>The shape of the trace of one error type.\<close>

lemma calc_mAP_trace:
  "\<exists>n\<le>length (correct_th err). fst (calc_mAP env err) = map (LoadScores (etype err)) (take n (correct_th err))"
proof -
  obtain tr r where l3: "loop3 env (etype err) (correct_th err) ([], []) = (tr, r)"
    by (cases "loop3 env (etype err) (correct_th err) ([], [])")
  from loop3_trace[OF l3] obtain n where "n \<le> length (correct_th err)"
    "tr = map (LoadScores (etype err)) (take n (correct_th err))" by blast
  moreover from l3 have "fst (calc_mAP env err) = tr"
    by (auto simp: calc_mAP_def split: sum.splits prod.splits)
  ultimately show ?thesis by auto
qed

lemma eval_error_type_pose_failed:
  "calc_errors_rc env (etype err) \<noteq> 0 \<Longrightarrow>
   eval_error_type nw env err =
     ([CalcErrors (etype err) (calc_errors_rc env (etype err))],
      Inl (RuntimeError ''Calculation of pose errors failed.''))"
  by (simp add: eval_error_type_def)

lemma eval_error_type_scores_failed:
  assumes "calc_errors_rc env (etype err) = 0" "correct_th err = ths1 @ th # ths2"
    "\<forall>x\<in>set ths1. calc_scores_rc env (etype err) x = 0" "calc_scores_rc env (etype err) th \<noteq> 0"
  shows "eval_error_type 1 env err =
     (CalcErrors (etype err) 0 # run_pool env (etype err) (ths1 @ [th]),
      Inl (RuntimeError ''Calculation of performance scores failed.''))"
  using assms(1,2) run_sequential_fail[OF assms(3,4), of ths2]
  by (simp add: eval_error_type_def run_score_tasks_def)

lemma eval_error_type_no_pool:
  "calc_errors_rc env (etype err) = 0 \<Longrightarrow> nw < 1 \<Longrightarrow>
   eval_error_type nw env err = ([CalcErrors (etype err) 0], Inl PoolValueError)"
  by (simp add: eval_error_type_def run_score_tasks_def)

lemma eval_error_type_aggregates:
  assumes "calc_errors_rc env (etype err) = 0" "1 \<le> nw"
    "nw = 1 \<longrightarrow> (\<forall>th\<in>set (correct_th err). calc_scores_rc env (etype err) th = 0)"
  shows "eval_error_type nw env err =
     (CalcErrors (etype err) 0 # run_pool env (etype err) (correct_th err) @ fst (calc_mAP env err),
      snd (calc_mAP env err))"
proof (cases "nw = 1")
  case True
  with assms(3) have "run_sequential env (etype err) (correct_th err) =
      (run_pool env (etype err) (correct_th err), Inr ())"
    by (intro run_sequential_ok) simp
  with assms(1) True show ?thesis
    by (simp add: eval_error_type_def run_score_tasks_def split: prod.splits)
next
  case False
  with assms(1,2) show ?thesis
    by (simp add: eval_error_type_def run_score_tasks_def split: prod.splits)
qed

text \<open>The four ways the evaluation of one error type can go.\<close>

lemma eval_error_type_cases:
  fixes nw :: int
  obtains
    (pose_failed) "calc_errors_rc env (etype err) \<noteq> 0"
  | (scores_failed) ths1 th ths2 where "calc_errors_rc env (etype err) = 0" "nw = 1"
      "correct_th err = ths1 @ th # ths2"
      "\<forall>x\<in>set ths1. calc_scores_rc env (etype err) x = 0"
      "calc_scores_rc env (etype err) th \<noteq> 0"
  | (no_pool) "calc_errors_rc env (etype err) = 0" "nw < 1"
  | (aggregates) "calc_errors_rc env (etype err) = 0" "1 \<le> nw"
      "nw = 1 \<longrightarrow> (\<forall>th\<in>set (correct_th err). calc_scores_rc env (etype err) th = 0)"
proof (cases "calc_errors_rc env (etype err) = 0")
  case False
  then show ?thesis by (rule pose_failed)
next
  case rc0: True
  show ?thesis
  proof (cases "nw < 1")
    case True
    with rc0 show ?thesis by (rule no_pool)
  next
    case False
    then have ge: "1 \<le> nw" by simp
    show ?thesis
    proof (cases "nw = 1 \<and> (\<exists>th\<in>set (correct_th err). calc_scores_rc env (etype err) th \<noteq> 0)")
      case True
      then have "\<exists>th\<in>set (correct_th err). calc_scores_rc env (etype err) th \<noteq> 0" by simp
      from split_list_first_prop[OF this] obtain ths1 th ths2 where
        "correct_th err = ths1 @ th # ths2" "calc_scores_rc env (etype err) th \<noteq> 0"
        "\<forall>x\<in>set ths1. \<not> calc_scores_rc env (etype err) x \<noteq> 0" by blast
      with rc0 True show ?thesis by (intro scores_failed[of ths1 th ths2]) simp_all
    next
      case False
      with rc0 ge show ?thesis by (intro aggregates) auto
    qed
  qed
qed

lemma tasks_closed_insert:
  "tasks_closed S \<Longrightarrow> event_type e = None \<or> is_load e \<or> (\<exists>t rc. e = CalcErrors t rc) \<Longrightarrow>
   tasks_closed (insert e S)"
  unfolding tasks_closed_def by (cases e) auto

lemma tasks_closed_empty: "tasks_closed {}"
  by (simp add: tasks_closed_def)

lemma ordered_from_single_CalcErrors: "ordered_from S [CalcErrors t rc]"
  by (simp add: ordered_from_Cons ordered_from_Nil ok_after_def)

lemma block_trace_cases:
  fixes nw :: int
  obtains
    (stopped) n where "n \<le> length (correct_th err)"
      "fst (eval_error_type nw env err) =
         CalcErrors (etype err) (calc_errors_rc env (etype err)) #
         run_pool env (etype err) (take n (correct_th err))"
      "0 < n \<longrightarrow> calc_errors_rc env (etype err) = 0"
  | (reads) n where "n \<le> length (correct_th err)"
      "fst (eval_error_type nw env err) =
         CalcErrors (etype err) 0 # run_pool env (etype err) (correct_th err) @
         map (LoadScores (etype err)) (take n (correct_th err))"
proof (cases rule: eval_error_type_cases[where env = env and err = err and nw = nw])
  case pose_failed
  then show ?thesis
    by (intro stopped[of 0]) (simp_all add: eval_error_type_pose_failed run_pool_def)
next
  case (scores_failed ths1 th ths2)
  then have "take (Suc (length ths1)) (correct_th err) = ths1 @ [th]" by simp
  with scores_failed show ?thesis
    by (intro stopped[of "Suc (length ths1)"]) (simp_all add: eval_error_type_scores_failed)
next
  case no_pool
  then show ?thesis
    by (intro stopped[of 0]) (simp_all add: eval_error_type_no_pool run_pool_def)
next
  case aggregates
  from calc_mAP_trace[of err env] obtain n where "n \<le> length (correct_th err)"
    "fst (calc_mAP env err) = map (LoadScores (etype err)) (take n (correct_th err))" by blast
  with aggregates show ?thesis
    by (intro reads[of n]) (simp_all add: eval_error_type_aggregates)
qed

lemma block_ordered:
  assumes cl: "tasks_closed S" and th: "thresholds (etype err) = correct_th err"
  shows "ordered_from S (fst (eval_error_type nw env err)) \<and>
     tasks_closed (S \<union> set (fst (eval_error_type nw env err)))"
proof (cases rule: block_trace_cases[where env = env and err = err and nw = nw])
  case (stopped n)
  let ?c = "CalcErrors (etype err) (calc_errors_rc env (etype err))"
  have cl1: "tasks_closed (insert ?c S)" using cl by (intro tasks_closed_insert) auto
  have "ordered_from (insert ?c S) (run_pool env (etype err) (take n (correct_th err)))"
  proof (cases "n = 0")
    case True
    then show ?thesis by (simp add: run_pool_def ordered_from_Nil)
  next
    case False
    with stopped(3) show ?thesis by (intro ordered_from_run_pool) simp
  qed
  moreover have "tasks_closed (insert ?c S \<union> set (run_pool env (etype err) (take n (correct_th err))))"
    using cl1 by (rule closed_run_pool)
  ultimately show ?thesis
    unfolding stopped(2) by (simp add: ordered_from_Cons ok_after_def)
next
  case (reads n)
  let ?c = "CalcErrors (etype err) 0"
  let ?A = "run_pool env (etype err) (correct_th err)"
  let ?B = "map (LoadScores (etype err)) (take n (correct_th err))"
  have cl1: "tasks_closed (insert ?c S)" using cl by (intro tasks_closed_insert) auto
  have oA: "ordered_from (insert ?c S) ?A" by (intro ordered_from_run_pool) simp
  have cl2: "tasks_closed (insert ?c S \<union> set ?A)" using cl1 by (rule closed_run_pool)
  have ends: "\<forall>th'\<in>set (thresholds (etype err)). \<exists>rc. TaskEnd (etype err) th' rc \<in> insert ?c S \<union> set ?A"
    unfolding th set_run_pool by blast
  have oB: "ordered_from (insert ?c S \<union> set ?A) ?B" using cl2 ends by (rule ordered_from_loads)
  have cl3: "tasks_closed ((insert ?c S \<union> set ?A) \<union> set ?B)" using cl2 by (rule closed_loads)
  have "S \<union> set (?c # ?A @ ?B) = (insert ?c S \<union> set ?A) \<union> set ?B" by auto
  with oA oB cl3 show ?thesis
    unfolding reads(2) by (simp add: ordered_from_Cons ordered_from_append ok_after_def)
qed

text \<open>The ways the evaluation of a result file can go.\<close>

lemma evaluate_cases:
  obtains
    (timing) e where "evaluate nw env = ([], Inl e)"
  | (first) e where "snd (eval_error_type nw env mssd_error) = Inl e"
      "evaluate nw env = (fst (eval_error_type nw env mssd_error), Inl e)"
  | (second) a e where "snd (eval_error_type nw env mssd_error) = Inr a"
      "snd (eval_error_type nw env mspd_error) = Inl e"
      "evaluate nw env =
         (fst (eval_error_type nw env mssd_error) @ fst (eval_error_type nw env mspd_error), Inl e)"
  | (saved) a b fs where "snd (eval_error_type nw env mssd_error) = Inr a"
      "snd (eval_error_type nw env mspd_error) = Inr b"
      "evaluate nw env =
         (fst (eval_error_type nw env mssd_error) @ fst (eval_error_type nw env mspd_error) @
            [SaveJson fs], Inr fs)"
proof (cases "average_time_per_image (ests env)")
  case (Inl e)
  then show ?thesis by (intro timing[of e]) (simp add: evaluate_def)
next
  case t: (Inr t)
  obtain tr1 r1 where e1: "eval_error_type nw env mssd_error = (tr1, r1)"
    by (cases "eval_error_type nw env mssd_error")
  obtain tr2 r2 where e2: "eval_error_type nw env mspd_error = (tr2, r2)"
    by (cases "eval_error_type nw env mspd_error")
  show ?thesis
  proof (cases r1)
    case (Inl e)
    with t e1 show ?thesis
      by (intro first[of e]) (simp_all add: evaluate_def errors_def)
  next
    case a: (Inr a)
    show ?thesis
    proof (cases r2)
      case (Inl e)
      with t e1 e2 a show ?thesis
        by (intro second[of a e]) (simp_all add: evaluate_def errors_def)
    next
      case b: (Inr b)
      have "evaluate nw env = (tr1 @ tr2 @ [SaveJson [(''bop24_mAP_mssd'', a), (''bop24_mAP_mspd'', b),
          (''bop24_mAP'', np_mean [a, b]), (''bop24_average_time_per_image'', t)]],
         Inr [(''bop24_mAP_mssd'', a), (''bop24_mAP_mspd'', b),
          (''bop24_mAP'', np_mean [a, b]), (''bop24_average_time_per_image'', t)])"
        using t e1 e2 a b
        by (simp add: evaluate_def errors_def calc_final_scores_def dict_get_def)
      with e1 e2 a b show ?thesis
        by (intro saved[of a b]) simp_all
    qed
  qed
qed

lemma thresholds_mssd: "thresholds (etype mssd_error) = correct_th mssd_error"
  by (simp add: thresholds_def)

lemma thresholds_mspd: "thresholds (etype mspd_error) = correct_th mspd_error"
  by (simp add: thresholds_def)

lemma ordered_from_SaveJson: "ordered_from S [SaveJson fs]"
  by (simp add: ordered_from_Cons ordered_from_Nil ok_after_def)

lemma evaluate_ordered: "ordered_from {} (fst (evaluate nw env))"
proof -
  let ?tr1 = "fst (eval_error_type nw env mssd_error)"
  let ?tr2 = "fst (eval_error_type nw env mspd_error)"
  from block_ordered[OF tasks_closed_empty thresholds_mssd, of nw env]
  have o1: "ordered_from {} ?tr1" and c1: "tasks_closed (set ?tr1)" by simp_all
  from block_ordered[OF c1 thresholds_mspd, of nw env]
  have o2: "ordered_from (set ?tr1) ?tr2" by simp
  show ?thesis
  proof (cases rule: evaluate_cases[of nw env])
    case (timing e)
    then show ?thesis by (simp add: ordered_from_Nil)
  next
    case (first e)
    with o1 show ?thesis by simp
  next
    case (second a e)
    with o1 o2 show ?thesis by (simp add: ordered_from_append)
  next
    case (saved a b fs)
    with o1 o2 show ?thesis by (simp add: ordered_from_append ordered_from_SaveJson)
  qed
qed

lemma block_event_type:
  "e \<in> set (fst (eval_error_type nw env err)) \<Longrightarrow> event_type e = Some (etype err)"
  by (cases rule: block_trace_cases[where env = env and err = err and nw = nw])
     (auto simp: set_run_pool)

lemma run_pool_not_failing:
  "nw = 1 \<longrightarrow> (\<forall>th\<in>set ths. calc_scores_rc env t th = 0) \<Longrightarrow>
   \<forall>x\<in>set (run_pool env t ths). \<not> failing nw x \<and> \<not> is_load x"
  by (auto simp: set_run_pool)

lemma block_failure:
  fixes nw :: int
  obtains
    (quiet) "\<forall>x\<in>set (fst (eval_error_type nw env err)). \<not> failing nw x"
  | (fatal) pre f where "fst (eval_error_type nw env err) = pre @ [f]" "failing nw f"
      "\<forall>x\<in>set pre. \<not> failing nw x \<and> \<not> is_load x" "\<not> is_load f"
      "snd (eval_error_type nw env err) = Inl (error_of f)"
proof (cases rule: eval_error_type_cases[where env = env and err = err and nw = nw])
  case pose_failed
  then show ?thesis
    by (intro fatal[of "[]" "CalcErrors (etype err) (calc_errors_rc env (etype err))"])
       (simp_all add: eval_error_type_pose_failed)
next
  case (scores_failed ths1 th ths2)
  have "\<forall>x\<in>set (run_pool env (etype err) ths1). \<not> failing nw x \<and> \<not> is_load x"
    using scores_failed(4) by (intro run_pool_not_failing) simp
  with scores_failed show ?thesis
    by (intro fatal[of "CalcErrors (etype err) 0 # run_pool env (etype err) ths1 @ [TaskStart (etype err) th]"
          "TaskEnd (etype err) th (calc_scores_rc env (etype err) th)"])
       (simp_all add: eval_error_type_scores_failed run_pool_append run_pool_Cons run_pool_def)
next
  case no_pool
  then show ?thesis by (intro quiet) (simp add: eval_error_type_no_pool)
next
  case aggregates
  have "\<forall>x\<in>set (run_pool env (etype err) (correct_th err)). \<not> failing nw x \<and> \<not> is_load x"
    using aggregates(3) by (intro run_pool_not_failing) simp
  moreover from calc_mAP_trace[of err env] obtain n where
    "fst (calc_mAP env err) = map (LoadScores (etype err)) (take n (correct_th err))" by blast
  ultimately show ?thesis
    using aggregates by (intro quiet) (auto simp: eval_error_type_aggregates)
qed

lemma block_Inr_quiet:
  fixes nw :: int
  assumes "snd (eval_error_type nw env err) = Inr a"
  shows "\<forall>x\<in>set (fst (eval_error_type nw env err)). \<not> failing nw x"
  using assms by (cases rule: block_failure[where env = env and err = err and nw = nw]) simp_all

lemma failing_is_last:
  assumes "i < length (xs @ pre @ [f])" "failing nw ((xs @ pre @ [f]) ! i)"
    "\<forall>x\<in>set xs. \<not> failing nw x" "\<forall>x\<in>set pre. \<not> failing nw x"
  shows "Suc i = length (xs @ pre @ [f]) \<and> (xs @ pre @ [f]) ! i = f"
proof -
  have "\<not> i < length (xs @ pre)"
  proof
    assume lt: "i < length (xs @ pre)"
    then have "(xs @ pre @ [f]) ! i = (xs @ pre) ! i"
      by (metis append_assoc nth_append)
    moreover from lt have "(xs @ pre) ! i \<in> set (xs @ pre)" by (rule nth_mem)
    ultimately show False using assms(2,3,4) by auto
  qed
  with assms(1) have i: "i = length (xs @ pre)" by simp
  then have "(xs @ pre @ [f]) ! i = f" by (metis append_assoc nth_append_length)
  with i show ?thesis by simp
qed

lemma evaluate_failure:
  fixes nw :: int
  assumes ev: "evaluate nw env = (tr, r)" and i: "i < length tr" and f: "failing nw (tr ! i)"
  shows "r = Inl (error_of (tr ! i)) \<and> Suc i = length tr \<and>
     (\<forall>x\<in>set tr. is_load x \<longrightarrow> event_type x \<noteq> event_type (tr ! i)) \<and>
     (\<forall>x\<in>set tr. event_type x \<noteq> None)"
proof (cases rule: evaluate_cases[of nw env])
  case (timing e)
  with ev i show ?thesis by simp
next
  case (first e)
  with ev have tr: "tr = fst (eval_error_type nw env mssd_error)" and r: "r = Inl e" by simp_all
  show ?thesis
  proof (cases rule: block_failure[where env = env and err = mssd_error and nw = nw])
    case quiet
    with tr i f show ?thesis by (metis nth_mem)
  next
    case (fatal pre g)
    from failing_is_last[of i "[]" pre g nw] i f tr fatal(1,3)
    have last: "Suc i = length tr" "tr ! i = g" by simp_all
    from fatal(5) first(1) r last have "r = Inl (error_of (tr ! i))" by simp
    moreover have "\<forall>x\<in>set tr. is_load x \<longrightarrow> event_type x \<noteq> event_type (tr ! i)"
      using fatal(1,3,4) tr by auto
    moreover have "\<forall>x\<in>set tr. event_type x \<noteq> None"
      using block_event_type[of _ nw env mssd_error] tr by auto
    ultimately show ?thesis using last by simp
  qed
next
  case (second a e)
  let ?tr1 = "fst (eval_error_type nw env mssd_error)"
  from second ev have tr: "tr = ?tr1 @ fst (eval_error_type nw env mspd_error)"
    and r: "r = Inl e" by simp_all
  have q1: "\<forall>x\<in>set ?tr1. \<not> failing nw x" using second(1) by (rule block_Inr_quiet)
  show ?thesis
  proof (cases rule: block_failure[where env = env and err = mspd_error and nw = nw])
    case quiet
    with tr q1 have "\<forall>x\<in>set tr. \<not> failing nw x" by auto
    with i f show ?thesis by (metis nth_mem)
  next
    case (fatal pre g)
    from failing_is_last[of i ?tr1 pre g nw] i f tr fatal(1,3) q1
    have last: "Suc i = length tr" "tr ! i = g" by simp_all
    from fatal(5) second(2) r last have r': "r = Inl (error_of (tr ! i))" by simp
    have "g \<in> set (fst (eval_error_type nw env mspd_error))" using fatal(1) by simp
    then have ty: "event_type (tr ! i) = Some ''mspd''"
      using block_event_type[of g nw env mspd_error] last by simp
    have "\<forall>x\<in>set tr. is_load x \<longrightarrow> event_type x \<noteq> event_type (tr ! i)"
    proof (intro ballI impI)
      fix x assume x: "x \<in> set tr" "is_load x"
      with tr fatal(1,3,4) have "x \<in> set ?tr1" by auto
      then have "event_type x = Some ''mssd''"
        using block_event_type[of x nw env mssd_error] by simp
      with ty show "event_type x \<noteq> event_type (tr ! i)" by simp
    qed
    moreover have "\<forall>x\<in>set tr. event_type x \<noteq> None"
      using block_event_type[of _ nw env mssd_error] block_event_type[of _ nw env mspd_error] tr
      by auto
    ultimately show ?thesis using last r' by simp
  qed
next
  case (saved a b fs)
  let ?tr1 = "fst (eval_error_type nw env mssd_error)"
  let ?tr2 = "fst (eval_error_type nw env mspd_error)"
  from saved ev have tr: "tr = ?tr1 @ ?tr2 @ [SaveJson fs]" by simp
  have "\<forall>x\<in>set ?tr1. \<not> failing nw x" using saved(1) by (rule block_Inr_quiet)
  moreover have "\<forall>x\<in>set ?tr2. \<not> failing nw x" using saved(2) by (rule block_Inr_quiet)
  ultimately have "\<forall>x\<in>set tr. \<not> failing nw x" using tr by auto
  with i f show ?thesis by (metis nth_mem)
qed

lemma loop3_calc_scores_rc:
  "loop3 (env\<lparr>calc_scores_rc := f\<rparr>) t ths st = loop3 env t ths st"
  by (induction ths arbitrary: st) (simp_all split: sum.splits prod.splits)

lemma calc_mAP_calc_scores_rc: "calc_mAP (env\<lparr>calc_scores_rc := f\<rparr>) err = calc_mAP env err"
  by (simp add: calc_mAP_def loop3_calc_scores_rc)

lemma eval_error_type_pooled:
  assumes "1 < nw"
  shows "eval_error_type nw env err =
     (if calc_errors_rc env (etype err) \<noteq> 0
      then ([CalcErrors (etype err) (calc_errors_rc env (etype err))],
            Inl (RuntimeError ''Calculation of pose errors failed.''))
      else (CalcErrors (etype err) 0 # run_pool env (etype err) (correct_th err) @ fst (calc_mAP env err),
            snd (calc_mAP env err)))"
  using assms by (simp add: eval_error_type_pose_failed eval_error_type_aggregates)

lemma evaluate_snd:
  "snd (evaluate nw env) =
     (case average_time_per_image (ests env) of
        Inl e \<Rightarrow> Inl e
      | Inr t \<Rightarrow>
          (case snd (eval_error_type nw env mssd_error) of
             Inl e \<Rightarrow> Inl e
           | Inr a \<Rightarrow>
               (case snd (eval_error_type nw env mspd_error) of
                  Inl e \<Rightarrow> Inl e
                | Inr b \<Rightarrow>
                    Inr [(''bop24_mAP_mssd'', a), (''bop24_mAP_mspd'', b),
                         (''bop24_mAP'', np_mean [a, b]), (''bop24_average_time_per_image'', t)])))"
proof (cases "average_time_per_image (ests env)")
  case (Inl e)
  then show ?thesis by (simp add: evaluate_def)
next
  case t: (Inr t)
  obtain tr1 r1 where e1: "eval_error_type nw env mssd_error = (tr1, r1)"
    by (cases "eval_error_type nw env mssd_error")
  obtain tr2 r2 where e2: "eval_error_type nw env mspd_error = (tr2, r2)"
    by (cases "eval_error_type nw env mspd_error")
  show ?thesis
  proof (cases r1)
    case (Inl e)
    with t e1 show ?thesis by (simp add: evaluate_def errors_def)
  next
    case a: (Inr a)
    show ?thesis
    proof (cases r2)
      case (Inl e)
      with t e1 e2 a show ?thesis by (simp add: evaluate_def errors_def)
    next
      case (Inr b)
      with t e1 e2 a show ?thesis
        by (simp add: evaluate_def errors_def calc_final_scores_def dict_get_def)
    qed
  qed
qed

lemmas trace_defs = run_pool_def eval_defs

lemma c6_trace:
  "fst (evaluate 1 c6_env) ! 21 = LoadScores ''mssd'' [0.05]"
  "fst (evaluate 1 c6_env) ! 31 = CalcErrors ''mspd'' 1"
  "length (fst (evaluate 1 c6_env)) = 32"
  "snd (evaluate 1 c6_env) = Inl (RuntimeError ''Calculation of pose errors failed.'')"
  by (simp_all add: c6_env_def trace_defs)

lemma c6_task_trace:
  "evaluate 1 c6_env_task =
     ([CalcErrors ''mssd'' 0, TaskStart ''mssd'' [0.05], TaskEnd ''mssd'' [0.05] 0,
       TaskStart ''mssd'' [0.1], TaskEnd ''mssd'' [0.1] 3],
      Inl (RuntimeError ''Calculation of performance scores failed.''))"
  by (simp add: c6_env_task_def trace_defs)

lemma c7_trace:
  "fst (evaluate 2 c7_env) ! 1 = TaskStart ''mssd'' [0.05]"
  "fst (evaluate 2 c7_env) ! 21 = LoadScores ''mssd'' [0.05]"
  "take 21 (fst (evaluate 2 c7_env)) = CalcErrors ''mssd'' 0 # run_pool c7_env ''mssd'' (correct_th mssd_error)"
  "length (fst (evaluate 2 c7_env)) = 63"
  by (simp_all add: c7_env_def trace_defs)

section \<open>The claims\<close>

text \<open>
  C5 (as amended). For the empty estimate sequence the timing loop raises nothing and
  leaves the times available, so the average time per image is the mean of the empty list
  of recorded times, which numpy evaluates to NaN; it is not the sentinel \<open>-1.0\<close>.
\<close>

theorem empty_estimates_average_is_nan: "average_time_per_image [] = Inr NaN"
  by (simp add: average_time_per_image_def np_mean_def)

text \<open>
  C5 as stated fails: the average of the empty estimate sequence is not the sentinel
  \<open>-1.0\<close>.
\<close>

theorem empty_estimates_not_sentinel: "average_time_per_image [] \<noteq> Inr (Num (- 1))"
  by (simp add: average_time_per_image_def np_mean_def)

text \<open>
  C4 (as amended). Timing validation fails exactly when some estimate, with no negative
  time at or before it, is in conflict, that is, reports a time that differs by more than
  \<open>0.001\<close> from the time of the first estimate with the same (scene, image) key; the
  timing-inconsistency error then names the scene and image of the first such estimate.
  If all times sharing a key differ by at most \<open>0.001\<close>, the validation returns a
  value.
\<close>

theorem timing_validation:
  "(\<forall>err. average_time_per_image es = Inl err \<longleftrightarrow>
      (\<exists>k<length es. (\<forall>m\<le>k. 0 \<le> time (es ! m)) \<and> conflicting es (es ! k) \<and>
         (\<forall>j<k. \<not> conflicting es (es ! j)) \<and>
         err = TimingValueError (scene_id (es ! k)) (im_id (es ! k)))) \<and>
   (\<forall>e. conflicting es e \<longleftrightarrow>
      (\<exists>t0. first_time es (result_key e) = Some t0 \<and> \<bar>t0 - time e\<bar> > 0.001)) \<and>
   (\<forall>n t0. n < length es \<and> (\<forall>m\<le>n. 0 \<le> time (es ! m)) \<and>
        first_time es (result_key (es ! n)) = Some t0 \<and> \<bar>t0 - time (es ! n)\<bar> > 0.001 \<longrightarrow>
      (\<exists>k\<le>n. average_time_per_image es =
           Inl (TimingValueError (scene_id (es ! k)) (im_id (es ! k))) \<and>
         conflicting es (es ! k) \<and> (\<forall>j<k. \<not> conflicting es (es ! j)))) \<and>
   ((\<forall>e1\<in>set es. \<forall>e2\<in>set es.
        result_key e1 = result_key e2 \<longrightarrow> \<bar>time e1 - time e2\<bar> \<le> 0.001) \<longrightarrow>
      (\<exists>v. average_time_per_image es = Inr v))"
proof (intro conjI)
  show "\<forall>err. average_time_per_image es = Inl err \<longleftrightarrow>
      (\<exists>k<length es. (\<forall>m\<le>k. 0 \<le> time (es ! m)) \<and> conflicting es (es ! k) \<and>
         (\<forall>j<k. \<not> conflicting es (es ! j)) \<and>
         err = TimingValueError (scene_id (es ! k)) (im_id (es ! k)))"
    by (intro allI) (rule timing_error_iff)
next
  show "\<forall>e. conflicting es e \<longleftrightarrow>
      (\<exists>t0. first_time es (result_key e) = Some t0 \<and> \<bar>t0 - time e\<bar> > 0.001)"
    by (intro allI) (rule conflicting_iff)
next
  show "\<forall>n t0. n < length es \<and> (\<forall>m\<le>n. 0 \<le> time (es ! m)) \<and>
        first_time es (result_key (es ! n)) = Some t0 \<and> \<bar>t0 - time (es ! n)\<bar> > 0.001 \<longrightarrow>
      (\<exists>k\<le>n. average_time_per_image es =
           Inl (TimingValueError (scene_id (es ! k)) (im_id (es ! k))) \<and>
         conflicting es (es ! k) \<and> (\<forall>j<k. \<not> conflicting es (es ! j)))"
  proof (intro allI impI)
    fix n t0
    assume a: "n < length es \<and> (\<forall>m\<le>n. 0 \<le> time (es ! m)) \<and>
        first_time es (result_key (es ! n)) = Some t0 \<and> \<bar>t0 - time (es ! n)\<bar> > 0.001"
    then have "conflicting es (es ! n)" by (auto simp: conflicting_iff)
    from least_conflict[OF this] obtain k where k: "k \<le> n" "conflicting es (es ! k)"
      "\<forall>j<k. \<not> conflicting es (es ! j)" by blast
    from k(1) a have "k < length es" "\<forall>m\<le>k. 0 \<le> time (es ! m)" by auto
    with k(2,3) have "average_time_per_image es =
        Inl (TimingValueError (scene_id (es ! k)) (im_id (es ! k)))"
      unfolding timing_error_iff by blast
    with k show "\<exists>k\<le>n. average_time_per_image es =
           Inl (TimingValueError (scene_id (es ! k)) (im_id (es ! k))) \<and>
         conflicting es (es ! k) \<and> (\<forall>j<k. \<not> conflicting es (es ! j))" by blast
  qed
next
  show "(\<forall>e1\<in>set es. \<forall>e2\<in>set es.
        result_key e1 = result_key e2 \<longrightarrow> \<bar>time e1 - time e2\<bar> \<le> 0.001) \<longrightarrow>
      (\<exists>v. average_time_per_image es = Inr v)"
    by (intro impI) (rule timing_consistent)
qed

theorem timing_validation_witness:
  "first_time c4_conflict (result_key (c4_conflict ! 3)) = Some 1 \<and>
   \<bar>1 - time (c4_conflict ! 3)\<bar> > 0.001 \<and>
   average_time_per_image c4_conflict = Inl (TimingValueError 3 7) \<and>
   average_time_per_image c4_good = Inr (Num 1.5)"
proof -
  have pre: "(3::nat) < length c4_conflict \<and> (\<forall>m\<le>3. 0 \<le> time (c4_conflict ! m)) \<and>
      first_time c4_conflict (result_key (c4_conflict ! 3)) = Some 1 \<and>
      \<bar>1 - time (c4_conflict ! 3)\<bar> > 0.001"
    by (simp add: c4_conflict_def first_time_def result_key_def le_Suc_eq numeral_3_eq_3
        all_conj_distrib)
  from timing_validation[of c4_conflict] pre
  obtain k where "k \<le> 3" "average_time_per_image c4_conflict =
         Inl (TimingValueError (scene_id (c4_conflict ! k)) (im_id (c4_conflict ! k)))" by blast
  then have bad: "average_time_per_image c4_conflict = Inl (TimingValueError 3 7)"
    by (simp add: c4_conflict_def average_time_per_image_def result_key_def)
  have "\<forall>e1\<in>set c4_good. \<forall>e2\<in>set c4_good.
        result_key e1 = result_key e2 \<longrightarrow> \<bar>time e1 - time e2\<bar> \<le> 0.001"
    by (simp add: c4_good_def result_key_def)
  with timing_validation[of c4_good] obtain v where "average_time_per_image c4_good = Inr v"
    by blast
  then have "average_time_per_image c4_good = Inr (Num 1.5)"
    by (simp add: c4_good_def average_time_per_image_def result_key_def np_mean_def)
  with bad pre show ?thesis by simp
qed

text \<open>
  C4 as stated fails: the second and third estimate share their key and their times differ
  by \<open>0.0016\<close>, yet both are within \<open>0.001\<close> of the first, recorded time, and the
  validation succeeds.
\<close>

theorem timing_pairwise_counterexample: "result_key (c4_ests ! 1) = result_key (c4_ests ! 2) \<and>
   \<bar>time (c4_ests ! 1) - time (c4_ests ! 2)\<bar> > 0.001 \<and>
   average_time_per_image c4_ests = Inr (Num 1)"
  by (simp add: c4_ests_def result_key_def average_time_per_image_def np_mean_def)

text \<open>
  C3 (as amended). The timing loop looks at the estimates before the first negative time.
  If one of them is in conflict (its time differs by more than \<open>0.001\<close> from that of
  the first estimate with its key), the validation raises the timing-inconsistency error
  and no average is computed. Otherwise the average time per image is exactly
  \<open>-1.0\<close> if some estimate has a negative time, and else the mean of the recorded
  per-image times, one per distinct (scene, image) key (the time of the first estimate with
  the key). A successful evaluation stores the computed value unchanged under
  \<open>bop24_average_time_per_image\<close> in the final scores it saves.
\<close>

theorem average_time_per_image_value:
  "average_time_per_image es = timing_summary es \<and>
   ((\<exists>e\<in>set es. time e < 0) \<and> (\<forall>e\<in>set (scanned es). \<not> conflicting es e) \<longrightarrow>
      average_time_per_image es = Inr (Num (- 1))) \<and>
   ((\<forall>e\<in>set es. 0 \<le> time e) \<and> (\<forall>e\<in>set es. \<not> conflicting es e) \<longrightarrow>
      average_time_per_image es =
        Inr (np_mean (map (\<lambda>kv. Num (snd kv)) (per_image_times es)))) \<and>
   ((\<exists>e\<in>set (scanned es). conflicting es e) \<longrightarrow>
      (\<exists>s i. average_time_per_image es = Inl (TimingValueError s i))) \<and>
   (\<forall>v. average_time_per_image es = Inr v \<longrightarrow>
      v = (if \<exists>e\<in>set es. time e < 0 then Num (- 1)
           else np_mean (map (\<lambda>kv. Num (snd kv)) (per_image_times es)))) \<and>
   distinct (map fst (per_image_times es)) \<and>
   fst ` set (per_image_times es) = result_key ` set es \<and>
   (\<forall>k t. (k, t) \<in> set (per_image_times es) \<longrightarrow> first_time es k = Some t) \<and>
   (\<forall>tr fs. evaluate num_workers env = (tr, Inr fs) \<longrightarrow>
      (\<exists>v. average_time_per_image (ests env) = Inr v \<and>
           dict_get fs ''bop24_average_time_per_image'' = Inr v \<and> SaveJson fs \<in> set tr))"
proof (intro conjI)
  show "average_time_per_image es = timing_summary es" by (rule average_time_closed_form)
next
  show "(\<exists>e\<in>set es. time e < 0) \<and> (\<forall>e\<in>set (scanned es). \<not> conflicting es e) \<longrightarrow>
      average_time_per_image es = Inr (Num (- 1))"
    using timing_sentinel[of es] by blast
next
  show "(\<forall>e\<in>set es. 0 \<le> time e) \<and> (\<forall>e\<in>set es. \<not> conflicting es e) \<longrightarrow>
      average_time_per_image es =
        Inr (np_mean (map (\<lambda>kv. Num (snd kv)) (per_image_times es)))"
    using timing_mean[of es] by blast
next
  show "(\<exists>e\<in>set (scanned es). conflicting es e) \<longrightarrow>
      (\<exists>s i. average_time_per_image es = Inl (TimingValueError s i))"
  proof
    assume "\<exists>e\<in>set (scanned es). conflicting es e"
    then have "find (conflicting es) (scanned es) \<noteq> None" by (auto simp: find_None_iff)
    then show "\<exists>s i. average_time_per_image es = Inl (TimingValueError s i)"
      by (auto simp: average_time_closed_form timing_summary_def)
  qed
next
  show "\<forall>v. average_time_per_image es = Inr v \<longrightarrow>
      v = (if \<exists>e\<in>set es. time e < 0 then Num (- 1)
           else np_mean (map (\<lambda>kv. Num (snd kv)) (per_image_times es)))"
    by (intro allI impI) (rule timing_Inr_value)
next
  show "distinct (map fst (per_image_times es))" by (rule per_image_times_distinct)
next
  show "fst ` set (per_image_times es) = result_key ` set es" by (rule per_image_times_keys)
next
  show "\<forall>k t. (k, t) \<in> set (per_image_times es) \<longrightarrow> first_time es k = Some t"
    by (intro allI impI) (rule per_image_times_first)
next
  show "\<forall>tr fs. evaluate num_workers env = (tr, Inr fs) \<longrightarrow>
      (\<exists>v. average_time_per_image (ests env) = Inr v \<and>
           dict_get fs ''bop24_average_time_per_image'' = Inr v \<and> SaveJson fs \<in> set tr)"
  proof (intro allI impI)
    fix tr fs assume "evaluate num_workers env = (tr, Inr fs)"
    from evaluate_Inr[OF this] obtain t tr1 tr2 a b where
      "average_time_per_image (ests env) = Inr t"
      "fs = [(''bop24_mAP_mssd'', a), (''bop24_mAP_mspd'', b), (''bop24_mAP'', np_mean [a, b]),
             (''bop24_average_time_per_image'', t)]"
      "tr = tr1 @ tr2 @ [SaveJson fs]" by (elim exE conjE)
    then show "\<exists>v. average_time_per_image (ests env) = Inr v \<and>
           dict_get fs ''bop24_average_time_per_image'' = Inr v \<and> SaveJson fs \<in> set tr"
      by (simp add: dict_get_def)
  qed
qed

theorem average_time_per_image_value_witness:
  "average_time_per_image c3_ests_neg = Inr (Num (- 1)) \<and>
   average_time_per_image c3_ests = Inr (Num 1.5) \<and>
   per_image_times c3_ests = [((1, 1), 1), ((1, 2), 2)] \<and>
   average_time_per_image c3_conflict = Inl (TimingValueError 1 1) \<and>
   snd (evaluate 1 c3_env) =
     Inr [(''bop24_mAP_mssd'', Num 0.5), (''bop24_mAP_mspd'', Num 0.5), (''bop24_mAP'', Num 0.5),
          (''bop24_average_time_per_image'', Num 1.5)]"
proof -
  have pre_neg: "(\<exists>e\<in>set c3_ests_neg. time e < 0) \<and>
      (\<forall>e\<in>set (scanned c3_ests_neg). \<not> conflicting c3_ests_neg e)"
    by (simp add: c3_ests_neg_def scanned_def conflicting_def first_time_def result_key_def)
  have neg: "average_time_per_image c3_ests_neg = Inr (Num (- 1))"
    using average_time_per_image_value[of c3_ests_neg 1 c3_env] pre_neg by blast
  have pre_pos: "(\<forall>e\<in>set c3_ests. 0 \<le> time e) \<and> (\<forall>e\<in>set c3_ests. \<not> conflicting c3_ests e)"
    by (simp add: c3_ests_def conflicting_def first_time_def result_key_def)
  have pit: "per_image_times c3_ests = [((1, 1), 1), ((1, 2), 2)]"
    by (simp add: c3_ests_def result_key_def)
  have "average_time_per_image c3_ests =
      Inr (np_mean (map (\<lambda>kv. Num (snd kv)) (per_image_times c3_ests)))"
    using average_time_per_image_value[of c3_ests 1 c3_env] pre_pos by blast
  then have pos: "average_time_per_image c3_ests = Inr (Num 1.5)"
    unfolding pit by (simp add: np_mean_def)
  have bad: "average_time_per_image c3_conflict = Inl (TimingValueError 1 1)"
    by (simp add: c3_conflict_def eval_defs)
  have ev: "snd (evaluate 1 c3_env) =
     Inr [(''bop24_mAP_mssd'', Num 0.5), (''bop24_mAP_mspd'', Num 0.5), (''bop24_mAP'', Num 0.5),
          (''bop24_average_time_per_image'', Num 1.5)]"
    by (simp add: c3_env_def c3_ests_def eval_defs)
  from neg pos pit bad ev show ?thesis by simp
qed

text \<open>
  C3 as stated fails: the third estimate has a negative time, but the second is in conflict
  with the first, so the validation raises before it reaches the negative time and no
  \<open>-1.0\<close> is computed.
\<close>

theorem negative_time_counterexample:
  "time (c3_conflict ! 2) < 0 \<and>
   average_time_per_image c3_conflict = Inl (TimingValueError 1 1)"
  by (simp add: c3_conflict_def eval_defs)

text \<open>
  C2. In the final scores of a successful evaluation, \<open>bop24_mAP\<close> is the mean of the
  two per-error-type mAP values (mssd and mspd), each counted once: for numbers \<open>x\<close> and
  \<open>y\<close> it is \<open>(x + y) / 2\<close>, and for 0.70 and 0.50 it is 0.60.
\<close>

theorem combined_mAP:
  assumes "evaluate num_workers env = (tr, Inr fs)"
  shows "\<exists>a b. snd (calc_mAP env mssd_error) = Inr a \<and> snd (calc_mAP env mspd_error) = Inr b \<and>
     dict_get fs ''bop24_mAP_mssd'' = Inr a \<and> dict_get fs ''bop24_mAP_mspd'' = Inr b \<and>
     dict_get fs ''bop24_mAP'' = Inr (np_mean [a, b]) \<and>
     (\<forall>x y. a = Num x \<and> b = Num y \<longrightarrow> dict_get fs ''bop24_mAP'' = Inr (Num ((x + y) / 2)))"
proof -
  from evaluate_Inr[OF assms] obtain t tr1 tr2 a b where
    e1: "eval_error_type num_workers env mssd_error = (tr1, Inr a)" and
    e2: "eval_error_type num_workers env mspd_error = (tr2, Inr b)" and
    fs: "fs = [(''bop24_mAP_mssd'', a), (''bop24_mAP_mspd'', b), (''bop24_mAP'', np_mean [a, b]),
           (''bop24_average_time_per_image'', t)]" by blast
  from eval_error_type_Inr[OF e1] have a: "snd (calc_mAP env mssd_error) = Inr a" by simp
  from eval_error_type_Inr[OF e2] have b: "snd (calc_mAP env mspd_error) = Inr b" by simp
  have "np_mean [Num x, Num y] = Num ((x + y) / 2)" for x y
    by (simp add: np_mean_def)
  with a b fs show ?thesis
    by (intro exI[of _ a] exI[of _ b]) (simp add: dict_get_def)
qed

theorem combined_mAP_witness:
  "snd (calc_mAP c2_env mssd_error) = Inr (Num 0.70) \<and>
   snd (calc_mAP c2_env mspd_error) = Inr (Num 0.50) \<and>
   dict_get (projr (snd (evaluate 1 c2_env))) ''bop24_mAP'' = Inr (Num 0.60)"
proof -
  have ev: "snd (evaluate 1 c2_env) =
     Inr [(''bop24_mAP_mssd'', Num 0.7), (''bop24_mAP_mspd'', Num 0.5), (''bop24_mAP'', Num 0.6),
          (''bop24_average_time_per_image'', NaN)]"
    by (simp add: c2_env_def eval_defs)
  then have "evaluate 1 c2_env = (fst (evaluate 1 c2_env),
     Inr [(''bop24_mAP_mssd'', Num 0.7), (''bop24_mAP_mspd'', Num 0.5), (''bop24_mAP'', Num 0.6),
          (''bop24_average_time_per_image'', NaN)])"
    by (metis prod.collapse)
  from combined_mAP[OF this] obtain a b where
    "snd (calc_mAP c2_env mssd_error) = Inr a" "snd (calc_mAP c2_env mspd_error) = Inr b"
    "Inr a = (Inr (Num 0.7) :: error + npfloat)" "Inr b = (Inr (Num 0.5) :: error + npfloat)"
    "\<forall>x y. a = Num x \<and> b = Num y \<longrightarrow>
       dict_get [(''bop24_mAP_mssd'', Num 0.7), (''bop24_mAP_mspd'', Num 0.5),
         (''bop24_mAP'', Num 0.6), (''bop24_average_time_per_image'', NaN)] ''bop24_mAP''
       = Inr (Num ((x + y) / 2))"
    by (auto simp: dict_get_def)
  then show ?thesis using ev by (simp add: dict_get_def)
qed

text \<open>
  C1. When the aggregation of an error type returns, its mAP is the mean, over the objects
  with at least one score from a score file with a positive instance count, of the mean of
  that object's scores from those files; every score file of the error type has been read.
  An object whose instance count is 0 in every score file is not among the objects
  averaged. Object A with scores 0.2, 0.4, 0.6 and object B with scores 1.0, 1.0 give 0.7.
\<close>

theorem mAP_per_error_type_value:
  assumes "calc_mAP env err = (tr, Inr v)"
  shows "v = spec_mAP (loaded_files env err) \<and>
     map (load_scores env (etype err)) (correct_th err) = map Inr (loaded_files env err) \<and>
     (\<exists>d ign. loop3 env (etype err) (correct_th err) ([], []) = (tr, Inr (d, ign)) \<and>
        v = np_mean (map (\<lambda>kv. np_mean (map Num (snd kv))) d) \<and>
        fst ` set d = set (averaged_objects (loaded_files env err)) \<and>
        (\<forall>ob. (\<forall>f\<in>set (loaded_files env err).
                 map_of (num_instances_per_object f) ob = Some 0) \<longrightarrow>
              ob \<notin> fst ` set d))"
proof -
  from calc_mAP_state[OF assms] obtain d ign where
    st: "loop3 env (etype err) (correct_th err) ([], []) = (tr, Inr (d, ign)) \<and>
     v = np_mean (map (\<lambda>kv. np_mean (map Num (snd kv))) d) \<and>
     wf_dict d \<and> (\<forall>ob. lk d ob = object_scores (loaded_files env err) ob) \<and>
     set ign = ignored_objects (loaded_files env err) \<and>
     fst ` set d = set (averaged_objects (loaded_files env err)) \<and>
     fst ` set d \<inter> set ign = {}" by (elim exE)
  then have l3: "loop3 env (etype err) (correct_th err) ([], []) = (tr, Inr (d, ign))"
    and v: "v = np_mean (map (\<lambda>kv. np_mean (map Num (snd kv))) d)"
    and keys: "fst ` set d = set (averaged_objects (loaded_files env err))" by simp_all
  have excl: "\<forall>ob. (\<forall>f\<in>set (loaded_files env err).
                 map_of (num_instances_per_object f) ob = Some 0) \<longrightarrow>
              ob \<notin> fst ` set d"
  proof (intro allI impI)
    fix ob
    assume "\<forall>f\<in>set (loaded_files env err). map_of (num_instances_per_object f) ob = Some 0"
    from zero_count_not_averaged[OF this] show "ob \<notin> fst ` set d"
      unfolding keys by (simp add: set_averaged_objects)
  qed
  have loads: "map (load_scores env (etype err)) (correct_th err) = map Inr (loaded_files env err)"
    using loop3_loads[OF l3] by (simp add: loaded_files_def)
  have "\<exists>d ign. loop3 env (etype err) (correct_th err) ([], []) = (tr, Inr (d, ign)) \<and>
        v = np_mean (map (\<lambda>kv. np_mean (map Num (snd kv))) d) \<and>
        fst ` set d = set (averaged_objects (loaded_files env err)) \<and>
        (\<forall>ob. (\<forall>f\<in>set (loaded_files env err).
                 map_of (num_instances_per_object f) ob = Some 0) \<longrightarrow>
              ob \<notin> fst ` set d)"
    using l3 v keys excl by (intro exI[of _ d] exI[of _ ign] conjI)
  with calc_mAP_eq_spec[OF assms] loads show ?thesis by (intro conjI)
qed

theorem mAP_per_error_type_value_witness:
  "calc_mAP c1_env c1_error =
    ([LoadScores ''mssd'' [0.05], LoadScores ''mssd'' [0.1], LoadScores ''mssd'' [0.15]],
     Inr (Num 0.7)) \<and>
   loaded_files c1_env c1_error = [abc_file 0.2 True, abc_file 0.4 True, abc_file 0.6 False] \<and>
   object_scores (loaded_files c1_env c1_error) ''A'' = [0.2, 0.4, 0.6] \<and>
   object_scores (loaded_files c1_env c1_error) ''B'' = [1.0, 1.0] \<and>
   object_scores (loaded_files c1_env c1_error) ''C'' = [] \<and>
   spec_mAP (loaded_files c1_env c1_error) = Num 0.7"
proof -
  have lf: "loaded_files c1_env c1_error = [abc_file 0.2 True, abc_file 0.4 True, abc_file 0.6 False]"
    by (simp add: loaded_files_def loaded_def c1_env_def c1_error_def)
  have os: "object_scores (loaded_files c1_env c1_error) ''A'' = [0.2, 0.4, 0.6]"
     "object_scores (loaded_files c1_env c1_error) ''B'' = [1.0, 1.0]"
     "object_scores (loaded_files c1_env c1_error) ''C'' = []"
    unfolding lf by (simp_all add: object_scores_def abc_file_def positive_def)
  from mAP_per_error_type_value[OF c1_calc]
  have "Num 0.7 = spec_mAP (loaded_files c1_env c1_error)" by blast
  with c1_calc lf os show ?thesis by simp
qed

text \<open>
  C9. When the aggregation of an error type returns, no object it averaged is among the
  ignored ones (those listed with a count that is not positive in some score file). If all
  score files are read, each gives a count for every object it scores, and some object has
  count 0 in one file and a positive count in another, the aggregation fails with the
  assertion error.
\<close>

theorem ignored_object_never_averaged:
  "(\<forall>tr v. calc_mAP env err = (tr, Inr v) \<longrightarrow>
      (\<exists>d ign. loop3 env (etype err) (correct_th err) ([], []) = (tr, Inr (d, ign)) \<and>
         set ign = ignored_objects (loaded_files env err) \<and>
         fst ` set d = set (averaged_objects (loaded_files env err)) \<and>
         fst ` set d \<inter> set ign = {})) \<and>
   (\<forall>f1 f2 ob s1 s2 n.
      (\<forall>th\<in>set (correct_th err). \<exists>f. load_scores env (etype err) th = Inr f) \<and>
      (\<forall>f\<in>set (loaded_files env err).
         fst ` set (scores f) \<subseteq> fst ` set (num_instances_per_object f)) \<and>
      f1 \<in> set (loaded_files env err) \<and> (ob, s1) \<in> set (scores f1) \<and>
      map_of (num_instances_per_object f1) ob = Some 0 \<and>
      f2 \<in> set (loaded_files env err) \<and> (ob, s2) \<in> set (scores f2) \<and>
      map_of (num_instances_per_object f2) ob = Some n \<and> 0 < n \<longrightarrow>
      snd (calc_mAP env err) = Inl AssertionError)"
proof (intro conjI allI impI)
  fix tr v assume ok: "calc_mAP env err = (tr, Inr v)"
  from calc_mAP_state[OF ok] obtain d ign where
    st: "loop3 env (etype err) (correct_th err) ([], []) = (tr, Inr (d, ign)) \<and>
     v = np_mean (map (\<lambda>kv. np_mean (map Num (snd kv))) d) \<and>
     wf_dict d \<and> (\<forall>ob. lk d ob = object_scores (loaded_files env err) ob) \<and>
     set ign = ignored_objects (loaded_files env err) \<and>
     fst ` set d = set (averaged_objects (loaded_files env err)) \<and>
     fst ` set d \<inter> set ign = {}" by (elim exE)
  then have "loop3 env (etype err) (correct_th err) ([], []) = (tr, Inr (d, ign)) \<and>
         set ign = ignored_objects (loaded_files env err) \<and>
         fst ` set d = set (averaged_objects (loaded_files env err)) \<and>
         fst ` set d \<inter> set ign = {}"
    by (elim conjE, intro conjI)
  then show "\<exists>d ign. loop3 env (etype err) (correct_th err) ([], []) = (tr, Inr (d, ign)) \<and>
         set ign = ignored_objects (loaded_files env err) \<and>
         fst ` set d = set (averaged_objects (loaded_files env err)) \<and>
         fst ` set d \<inter> set ign = {}"
    by (intro exI[of _ d] exI[of _ ign])
next
  fix f1 f2 ob s1 s2 n
  assume a: "(\<forall>th\<in>set (correct_th err). \<exists>f. load_scores env (etype err) th = Inr f) \<and>
      (\<forall>f\<in>set (loaded_files env err).
         fst ` set (scores f) \<subseteq> fst ` set (num_instances_per_object f)) \<and>
      f1 \<in> set (loaded_files env err) \<and> (ob, s1) \<in> set (scores f1) \<and>
      map_of (num_instances_per_object f1) ob = Some 0 \<and>
      f2 \<in> set (loaded_files env err) \<and> (ob, s2) \<in> set (scores f2) \<and>
      map_of (num_instances_per_object f2) ob = Some n \<and> 0 < n"
  then have loads: "\<forall>th\<in>set (correct_th err). \<exists>f. load_scores env (etype err) th = Inr f"
    and keys: "\<forall>f\<in>set (loaded_files env err).
         fst ` set (scores f) \<subseteq> fst ` set (num_instances_per_object f)" by simp_all
  from loop3_reads_all[OF loads keys] obtain tr d ign where
    l3: "loop3 env (etype err) (correct_th err) ([], []) = (tr, Inr (d, ign))" and
    wf: "wf_dict d" and lkd: "\<forall>ob. lk d ob = object_scores (loaded_files env err) ob" and
    ign: "set ign = ignored_objects (loaded_files env err)" by (elim exE conjE)
  from a have "object_scores (loaded_files env err) ob \<noteq> []"
    using object_scores_positive[of f2 "loaded_files env err" ob s2 n] by simp
  with lkd have "ob \<in> fst ` set d" by (simp add: wf_dict_keys[OF wf])
  moreover from a have "ob \<in> set ign"
    unfolding ign using ignored_objects_zero[of f1 "loaded_files env err" ob s1] by simp
  ultimately have "fst ` set d \<inter> set ign \<noteq> {}" by blast
  with calc_mAP_loop3[OF l3] show "snd (calc_mAP env err) = Inl AssertionError" by simp
qed

theorem ignored_object_never_averaged_witness:
  "snd (calc_mAP c9_env c9_error) = Inl AssertionError \<and>
   loaded_files c9_env c9_error = [c9_file 0, c9_file 2] \<and>
   snd (calc_mAP c1_env c1_error) = Inr (Num 0.7) \<and>
   set (averaged_objects (loaded_files c1_env c1_error)) = {''A'', ''B''} \<and>
   ignored_objects (loaded_files c1_env c1_error) = {''C''}"
proof -
  have lf: "loaded_files c9_env c9_error = [c9_file 0, c9_file 2]"
    by (simp add: loaded_files_def loaded_def c9_env_def c9_error_def)
  have pre: "(\<forall>th\<in>set (correct_th c9_error). \<exists>f. load_scores c9_env (etype c9_error) th = Inr f) \<and>
      (\<forall>f\<in>set (loaded_files c9_env c9_error).
         fst ` set (scores f) \<subseteq> fst ` set (num_instances_per_object f)) \<and>
      c9_file 0 \<in> set (loaded_files c9_env c9_error) \<and> (''A'', 0.5) \<in> set (scores (c9_file 0)) \<and>
      map_of (num_instances_per_object (c9_file 0)) ''A'' = Some 0 \<and>
      c9_file 2 \<in> set (loaded_files c9_env c9_error) \<and> (''A'', 0.5) \<in> set (scores (c9_file 2)) \<and>
      map_of (num_instances_per_object (c9_file 2)) ''A'' = Some 2 \<and> (0::int) < 2"
    unfolding lf by (simp add: c9_env_def c9_error_def c9_file_def)
  have bad: "snd (calc_mAP c9_env c9_error) = Inl AssertionError"
    by (rule ignored_object_never_averaged[of c9_env c9_error, THEN conjunct2, rule_format, OF pre])
  have lf1: "loaded_files c1_env c1_error = [abc_file 0.2 True, abc_file 0.4 True, abc_file 0.6 False]"
    by (simp add: loaded_files_def loaded_def c1_env_def c1_error_def)
  have av: "set (averaged_objects (loaded_files c1_env c1_error)) = {''A'', ''B''}"
    unfolding lf1 by (simp add: averaged_objects_def object_scores_def abc_file_def positive_def insert_commute)
  have ig: "ignored_objects (loaded_files c1_env c1_error) = {''C''}"
    unfolding lf1 by (auto simp: ignored_objects_def abc_file_def positive_def)
  from bad lf c1_calc av ig show ?thesis by simp
qed

text \<open>
  C10. If every score file of an error type is read and gives every object it scores a
  count that is not positive, the aggregation raises nothing and the mAP of the error type
  is NaN. After a successful error and score calculation the error type evaluates to what
  the aggregation returns, and the evaluation returns final scores whenever the timing and
  both error types return values, NaN included. In the final scores of a successful
  evaluation, an error type with no averaged object has the mAP NaN, \<open>bop24_mAP\<close> is
  NaN, and these scores are what is saved last.
\<close>

theorem empty_averaged_set_gives_nan:
  "((\<forall>th\<in>set (correct_th err). \<exists>f. load_scores env (etype err) th = Inr f) \<and>
    (\<forall>f\<in>set (loaded_files env err). \<forall>ob\<in>fst ` set (scores f).
        \<exists>n\<le>0. map_of (num_instances_per_object f) ob = Some n) \<longrightarrow>
      snd (calc_mAP env err) = Inr NaN) \<and>
   (calc_errors_rc env (etype err) = 0 \<and> snd (run_score_tasks num_workers env err) = Inr () \<longrightarrow>
      snd (eval_error_type num_workers env err) = snd (calc_mAP env err)) \<and>
   (\<forall>t a b. average_time_per_image (ests env) = Inr t \<and>
      snd (eval_error_type num_workers env mssd_error) = Inr a \<and>
      snd (eval_error_type num_workers env mspd_error) = Inr b \<longrightarrow>
      snd (evaluate num_workers env) =
        Inr [(''bop24_mAP_mssd'', a), (''bop24_mAP_mspd'', b), (''bop24_mAP'', np_mean [a, b]),
             (''bop24_average_time_per_image'', t)]) \<and>
   (\<forall>tr fs. evaluate num_workers env = (tr, Inr fs) \<and> err \<in> set errors \<and>
      averaged_objects (loaded_files env err) = [] \<longrightarrow>
      dict_get fs (''bop24_mAP_'' @ etype err) = Inr NaN \<and>
      dict_get fs ''bop24_mAP'' = Inr NaN \<and> tr \<noteq> [] \<and> last tr = SaveJson fs)"
proof (intro conjI allI impI)
  assume "(\<forall>th\<in>set (correct_th err). \<exists>f. load_scores env (etype err) th = Inr f) \<and>
    (\<forall>f\<in>set (loaded_files env err). \<forall>ob\<in>fst ` set (scores f).
        \<exists>n\<le>0. map_of (num_instances_per_object f) ob = Some n)"
  then show "snd (calc_mAP env err) = Inr NaN" using calc_mAP_empty[of err env] by simp
next
  assume "calc_errors_rc env (etype err) = 0 \<and> snd (run_score_tasks num_workers env err) = Inr ()"
  then show "snd (eval_error_type num_workers env err) = snd (calc_mAP env err)"
    using eval_error_type_snd[of env err num_workers] by simp
next
  fix t a b
  assume "average_time_per_image (ests env) = Inr t \<and>
      snd (eval_error_type num_workers env mssd_error) = Inr a \<and>
      snd (eval_error_type num_workers env mspd_error) = Inr b"
  then show "snd (evaluate num_workers env) =
        Inr [(''bop24_mAP_mssd'', a), (''bop24_mAP_mspd'', b), (''bop24_mAP'', np_mean [a, b]),
             (''bop24_average_time_per_image'', t)]"
    using evaluate_total[of env t num_workers a b] by simp
next
  fix tr fs
  assume a: "evaluate num_workers env = (tr, Inr fs) \<and> err \<in> set errors \<and>
      averaged_objects (loaded_files env err) = []"
  then have ev: "evaluate num_workers env = (tr, Inr fs)"
    and empty: "averaged_objects (loaded_files env err) = []"
    and err: "err = mssd_error \<or> err = mspd_error" by (simp_all add: errors_def)
  from evaluate_Inr[OF ev] obtain t tr1 tr2 a b where
    e1: "eval_error_type num_workers env mssd_error = (tr1, Inr a)" and
    e2: "eval_error_type num_workers env mspd_error = (tr2, Inr b)" and
    fs: "fs = [(''bop24_mAP_mssd'', a), (''bop24_mAP_mspd'', b), (''bop24_mAP'', np_mean [a, b]),
           (''bop24_average_time_per_image'', t)]" and
    tr: "tr = tr1 @ tr2 @ [SaveJson fs]" by (elim exE conjE)
  from eval_error_type_Inr[OF e1] have "calc_mAP env mssd_error = (fst (calc_mAP env mssd_error), Inr a)"
    by (metis prod.collapse)
  from calc_mAP_eq_spec[OF this] have a: "a = spec_mAP (loaded_files env mssd_error)" .
  from eval_error_type_Inr[OF e2] have "calc_mAP env mspd_error = (fst (calc_mAP env mspd_error), Inr b)"
    by (metis prod.collapse)
  from calc_mAP_eq_spec[OF this] have b: "b = spec_mAP (loaded_files env mspd_error)" .
  from err show "dict_get fs (''bop24_mAP_'' @ etype err) = Inr NaN"
  proof
    assume "err = mssd_error"
    with empty a fs show ?thesis by (simp add: spec_mAP_def dict_get_def)
  next
    assume "err = mspd_error"
    with empty b fs show ?thesis by (simp add: spec_mAP_def dict_get_def)
  qed
  from err have "a = NaN \<or> b = NaN" using empty a b by (auto simp: spec_mAP_def)
  then show "dict_get fs ''bop24_mAP'' = Inr NaN"
    using fs by (auto simp: dict_get_def np_mean_def)
  from tr show "tr \<noteq> []" by simp
  from tr show "last tr = SaveJson fs" by simp
qed

theorem empty_averaged_set_gives_nan_witness:
  "snd (calc_mAP c10_env mssd_error) = Inr NaN \<and>
   averaged_objects (loaded_files c10_env mssd_error) = [] \<and>
   snd (evaluate 2 c10_env) =
     Inr [(''bop24_mAP_mssd'', NaN), (''bop24_mAP_mspd'', Num 0.5), (''bop24_mAP'', NaN),
          (''bop24_average_time_per_image'', NaN)] \<and>
   last (fst (evaluate 2 c10_env)) =
     SaveJson [(''bop24_mAP_mssd'', NaN), (''bop24_mAP_mspd'', Num 0.5), (''bop24_mAP'', NaN),
          (''bop24_average_time_per_image'', NaN)]"
proof -
  have lf: "loaded_files c10_env mssd_error = replicate 10 (c9_file 0)"
    by (simp add: loaded_files_def loaded_def c10_env_def correct_th_mssd numeral_eq_Suc)
  have pre: "(\<forall>th\<in>set (correct_th mssd_error). \<exists>f. load_scores c10_env (etype mssd_error) th = Inr f) \<and>
    (\<forall>f\<in>set (loaded_files c10_env mssd_error). \<forall>ob\<in>fst ` set (scores f).
        \<exists>n\<le>0. map_of (num_instances_per_object f) ob = Some n)"
    unfolding lf by (simp add: c10_env_def c9_file_def)
  have nan: "snd (calc_mAP c10_env mssd_error) = Inr NaN"
    by (rule empty_averaged_set_gives_nan[of mssd_error c10_env, THEN conjunct1, rule_format, OF pre])
  have av: "averaged_objects (loaded_files c10_env mssd_error) = []"
    unfolding lf by (simp add: averaged_objects_def object_scores_def c9_file_def positive_def numeral_eq_Suc)
  have ev: "snd (evaluate 2 c10_env) =
     Inr [(''bop24_mAP_mssd'', NaN), (''bop24_mAP_mspd'', Num 0.5), (''bop24_mAP'', NaN),
          (''bop24_average_time_per_image'', NaN)]"
    by (simp add: c10_env_def c9_file_def run_pool_def eval_defs)
  have la: "last (fst (evaluate 2 c10_env)) =
     SaveJson [(''bop24_mAP_mssd'', NaN), (''bop24_mAP_mspd'', Num 0.5), (''bop24_mAP'', NaN),
          (''bop24_average_time_per_image'', NaN)]"
    by (simp add: c10_env_def c9_file_def run_pool_def eval_defs)
  from nan av ev la show ?thesis by simp
qed

text \<open>
  C6 (as amended). A non-zero exit status of the error calculation of an error type, or, with
  \<open>num_workers = 1\<close>, of one of its score calculations, is the last event of the
  evaluation of the result file: the evaluation ends in the corresponding
  \<open>RuntimeError\<close>, no score file of that error type is read at all, and no final
  scores are saved. (Score files of an error type evaluated earlier have been read by then.)
\<close>

theorem stage_failure_is_fatal:
  assumes "evaluate num_workers env = (tr, r)" and "i < length tr"
  shows "(\<forall>t rc. tr ! i = CalcErrors t rc \<and> rc \<noteq> 0 \<longrightarrow>
        r = Inl (RuntimeError ''Calculation of pose errors failed.'') \<and> Suc i = length tr \<and>
        (\<forall>th. LoadScores t th \<notin> set tr) \<and> (\<forall>fs. SaveJson fs \<notin> set tr)) \<and>
     (\<forall>t th rc. num_workers = 1 \<and> tr ! i = TaskEnd t th rc \<and> rc \<noteq> 0 \<longrightarrow>
        r = Inl (RuntimeError ''Calculation of performance scores failed.'') \<and> Suc i = length tr \<and>
        (\<forall>th'. LoadScores t th' \<notin> set tr) \<and> (\<forall>fs. SaveJson fs \<notin> set tr))"
proof (intro conjI)
  show "\<forall>t rc. tr ! i = CalcErrors t rc \<and> rc \<noteq> 0 \<longrightarrow>
        r = Inl (RuntimeError ''Calculation of pose errors failed.'') \<and> Suc i = length tr \<and>
        (\<forall>th. LoadScores t th \<notin> set tr) \<and> (\<forall>fs. SaveJson fs \<notin> set tr)"
  proof (intro allI impI)
    fix t rc assume a: "tr ! i = CalcErrors t rc \<and> rc \<noteq> 0"
    then have "failing num_workers (tr ! i)" by simp
    from evaluate_failure[OF assms this] a
    have r: "r = Inl (RuntimeError ''Calculation of pose errors failed.'')" and l: "Suc i = length tr"
      and ld: "\<forall>x\<in>set tr. is_load x \<longrightarrow> event_type x \<noteq> Some t"
      and sv: "\<forall>x\<in>set tr. event_type x \<noteq> None" by simp_all
    from ld have "\<forall>th. LoadScores t th \<notin> set tr" by force
    moreover from sv have "\<forall>fs. SaveJson fs \<notin> set tr" by force
    ultimately show "r = Inl (RuntimeError ''Calculation of pose errors failed.'') \<and> Suc i = length tr \<and>
        (\<forall>th. LoadScores t th \<notin> set tr) \<and> (\<forall>fs. SaveJson fs \<notin> set tr)"
      using r l by simp
  qed
next
  show "\<forall>t th rc. num_workers = 1 \<and> tr ! i = TaskEnd t th rc \<and> rc \<noteq> 0 \<longrightarrow>
        r = Inl (RuntimeError ''Calculation of performance scores failed.'') \<and> Suc i = length tr \<and>
        (\<forall>th'. LoadScores t th' \<notin> set tr) \<and> (\<forall>fs. SaveJson fs \<notin> set tr)"
  proof (intro allI impI)
    fix t th rc assume a: "num_workers = 1 \<and> tr ! i = TaskEnd t th rc \<and> rc \<noteq> 0"
    then have "failing num_workers (tr ! i)" by simp
    from evaluate_failure[OF assms this] a
    have r: "r = Inl (RuntimeError ''Calculation of performance scores failed.'')" and l: "Suc i = length tr"
      and ld: "\<forall>x\<in>set tr. is_load x \<longrightarrow> event_type x \<noteq> Some t"
      and sv: "\<forall>x\<in>set tr. event_type x \<noteq> None" by simp_all
    from ld have "\<forall>th'. LoadScores t th' \<notin> set tr" by force
    moreover from sv have "\<forall>fs. SaveJson fs \<notin> set tr" by force
    ultimately show "r = Inl (RuntimeError ''Calculation of performance scores failed.'') \<and> Suc i = length tr \<and>
        (\<forall>th'. LoadScores t th' \<notin> set tr) \<and> (\<forall>fs. SaveJson fs \<notin> set tr)"
      using r l by simp
  qed
qed

theorem stage_failure_is_fatal_witness:
  "fst (evaluate 1 c6_env) ! 31 = CalcErrors ''mspd'' 1 \<and>
   snd (evaluate 1 c6_env) = Inl (RuntimeError ''Calculation of pose errors failed.'') \<and>
   Suc 31 = length (fst (evaluate 1 c6_env)) \<and>
   LoadScores ''mspd'' [5] \<notin> set (fst (evaluate 1 c6_env)) \<and>
   fst (evaluate 1 c6_env_task) ! 4 = TaskEnd ''mssd'' [0.1] 3 \<and>
   snd (evaluate 1 c6_env_task) = Inl (RuntimeError ''Calculation of performance scores failed.'') \<and>
   Suc 4 = length (fst (evaluate 1 c6_env_task)) \<and>
   LoadScores ''mssd'' [0.05] \<notin> set (fst (evaluate 1 c6_env_task))"
proof -
  have e1: "evaluate 1 c6_env = (fst (evaluate 1 c6_env), snd (evaluate 1 c6_env))" by simp
  have i1: "31 < length (fst (evaluate 1 c6_env))" by (simp add: c6_trace)
  from stage_failure_is_fatal[OF e1 i1] c6_trace(2)
  have a: "snd (evaluate 1 c6_env) = Inl (RuntimeError ''Calculation of pose errors failed.'') \<and>
      Suc 31 = length (fst (evaluate 1 c6_env)) \<and>
      (\<forall>th. LoadScores ''mspd'' th \<notin> set (fst (evaluate 1 c6_env)))" by simp
  have e2: "evaluate 1 c6_env_task = (fst (evaluate 1 c6_env_task), snd (evaluate 1 c6_env_task))"
    by simp
  have i2: "4 < length (fst (evaluate 1 c6_env_task))" by (simp add: c6_task_trace)
  have t2: "fst (evaluate 1 c6_env_task) ! 4 = TaskEnd ''mssd'' [0.1] 3" by (simp add: c6_task_trace)
  from stage_failure_is_fatal[OF e2 i2] t2
  have b: "snd (evaluate 1 c6_env_task) = Inl (RuntimeError ''Calculation of performance scores failed.'') \<and>
      Suc 4 = length (fst (evaluate 1 c6_env_task)) \<and>
      (\<forall>th'. LoadScores ''mssd'' th' \<notin> set (fst (evaluate 1 c6_env_task)))" by simp
  from a b c6_trace(2) t2 show ?thesis by simp
qed

text \<open>
  C6 as stated fails: when the error calculation of the second error type (mspd) fails,
  the score files of the first (mssd) have already been read; the read of the first one is
  event 21 of the trace and the failure is event 31.
\<close>

theorem stage_failure_counterexample:
  "fst (evaluate 1 c6_env) ! 21 = LoadScores ''mssd'' [0.05] \<and>
   fst (evaluate 1 c6_env) ! 31 = CalcErrors ''mspd'' 1 \<and>
   snd (evaluate 1 c6_env) = Inl (RuntimeError ''Calculation of pose errors failed.'')"
  by (simp add: c6_trace)

text \<open>
  C7. With \<open>num_workers > 1\<close> the score calculations of an error type all run and
  terminate, whatever their exit statuses, and running them raises nothing; after a
  successful error calculation the score files are read next and the error type evaluates
  to what the aggregation returns. The result of the whole evaluation does not depend on
  the exit statuses of the score calculations.
\<close>

theorem pooled_failures_ignored:
  assumes "1 < num_workers"
  shows "run_score_tasks num_workers env err = (run_pool env (etype err) (correct_th err), Inr ()) \<and>
     (\<forall>th\<in>set (correct_th err).
        TaskEnd (etype err) th (calc_scores_rc env (etype err) th)
          \<in> set (run_pool env (etype err) (correct_th err))) \<and>
     (calc_errors_rc env (etype err) = 0 \<longrightarrow>
        eval_error_type num_workers env err =
          (CalcErrors (etype err) 0 # run_pool env (etype err) (correct_th err) @
             fst (calc_mAP env err),
           snd (calc_mAP env err))) \<and>
     snd (evaluate num_workers (env\<lparr>calc_scores_rc := f\<rparr>)) = snd (evaluate num_workers env)"
proof (intro conjI)
  show "run_score_tasks num_workers env err = (run_pool env (etype err) (correct_th err), Inr ())"
    using assms by (simp add: run_score_tasks_def)
  show "\<forall>th\<in>set (correct_th err).
        TaskEnd (etype err) th (calc_scores_rc env (etype err) th)
          \<in> set (run_pool env (etype err) (correct_th err))"
    by (auto simp: set_run_pool)
  show "calc_errors_rc env (etype err) = 0 \<longrightarrow>
        eval_error_type num_workers env err =
          (CalcErrors (etype err) 0 # run_pool env (etype err) (correct_th err) @
             fst (calc_mAP env err),
           snd (calc_mAP env err))"
    using assms by (simp add: eval_error_type_pooled)
  have same: "snd (eval_error_type num_workers (env\<lparr>calc_scores_rc := f\<rparr>) e) =
      snd (eval_error_type num_workers env e)" for e
    using assms by (simp add: eval_error_type_pooled calc_mAP_calc_scores_rc)
  show "snd (evaluate num_workers (env\<lparr>calc_scores_rc := f\<rparr>)) = snd (evaluate num_workers env)"
    unfolding evaluate_snd same by simp
qed

theorem pooled_failures_ignored_witness:
  "(1::int) < 2 \<and>
   run_score_tasks 2 c7_env mspd_error =
     (run_pool c7_env ''mspd'' (correct_th mspd_error), Inr ()) \<and>
   TaskEnd ''mspd'' [5] 1 \<in> set (run_pool c7_env ''mspd'' (correct_th mspd_error)) \<and>
   snd (evaluate 2 c7_env) =
     Inr [(''bop24_mAP_mssd'', Num 0.5), (''bop24_mAP_mspd'', Num 0.5), (''bop24_mAP'', Num 0.5),
          (''bop24_average_time_per_image'', NaN)] \<and>
   snd (evaluate 2 (c7_env\<lparr>calc_scores_rc := (\<lambda>t th. 0)\<rparr>)) = snd (evaluate 2 c7_env)"
proof -
  have two: "(1::int) < 2" by simp
  note inst = pooled_failures_ignored[OF two, of c7_env mspd_error "\<lambda>t th. 0"]
  have "TaskEnd ''mspd'' [5] 1 \<in> set (run_pool c7_env ''mspd'' (correct_th mspd_error))"
    by (simp add: run_pool_def correct_th_mspd c7_env_def)
  moreover have "snd (evaluate 2 c7_env) =
     Inr [(''bop24_mAP_mssd'', Num 0.5), (''bop24_mAP_mspd'', Num 0.5), (''bop24_mAP'', Num 0.5),
          (''bop24_average_time_per_image'', NaN)]"
    by (simp add: c7_env_def trace_defs)
  ultimately show ?thesis using inst by simp
qed

text \<open>
  C8. In the trace of an evaluation, for any number of workers: before a score calculation
  of an error type starts, the error calculation of that type has returned status 0; and
  before a score file of an error type is read, every score calculation of that type that
  has started has terminated, and there is a terminated score calculation for each of the
  thresholds configured for the type. (The pool's own schedule is not modelled: its tasks
  are listed in the order of submission, between the error calculation and the return of
  \<open>join\<close>.)
\<close>

theorem stage_ordering:
  assumes "evaluate num_workers env = (tr, r)" and "i < length tr"
  shows "(\<forall>t th. tr ! i = TaskStart t th \<longrightarrow> CalcErrors t 0 \<in> set (take i tr)) \<and>
     (\<forall>t th. tr ! i = LoadScores t th \<longrightarrow>
        (\<forall>th'. TaskStart t th' \<in> set (take i tr) \<longrightarrow> (\<exists>rc. TaskEnd t th' rc \<in> set (take i tr))) \<and>
        (\<forall>err\<in>set errors. etype err = t \<longrightarrow>
           (\<forall>th'\<in>set (correct_th err). \<exists>rc. TaskEnd t th' rc \<in> set (take i tr))))"
proof -
  from evaluate_ordered[of num_workers env] assms
  have ok: "ok_after (set (take i tr)) (tr ! i)" by (simp add: ordered_from_def)
  have th: "thresholds (etype err) = correct_th err" if "err \<in> set errors" for err
    using that by (auto simp: errors_def thresholds_def)
  show ?thesis
  proof (intro conjI allI impI)
    fix t th assume "tr ! i = TaskStart t th"
    with ok show "CalcErrors t 0 \<in> set (take i tr)" by (simp add: ok_after_def)
  next
    fix t th th' assume "tr ! i = LoadScores t th" "TaskStart t th' \<in> set (take i tr)"
    with ok show "\<exists>rc. TaskEnd t th' rc \<in> set (take i tr)" by (simp add: ok_after_def)
  next
    fix t th assume l: "tr ! i = LoadScores t th"
    show "\<forall>err\<in>set errors. etype err = t \<longrightarrow>
           (\<forall>th'\<in>set (correct_th err). \<exists>rc. TaskEnd t th' rc \<in> set (take i tr))"
    proof (intro ballI impI)
      fix err th' assume "err \<in> set errors" "etype err = t" "th' \<in> set (correct_th err)"
      with th[of err] have "th' \<in> set (thresholds t)" by simp
      with ok l show "\<exists>rc. TaskEnd t th' rc \<in> set (take i tr)" by (simp add: ok_after_def)
    qed
  qed
qed

theorem stage_ordering_witness:
  "fst (evaluate 2 c7_env) ! 1 = TaskStart ''mssd'' [0.05] \<and>
   CalcErrors ''mssd'' 0 \<in> set (take 1 (fst (evaluate 2 c7_env))) \<and>
   fst (evaluate 2 c7_env) ! 21 = LoadScores ''mssd'' [0.05] \<and>
   (\<exists>rc. TaskEnd ''mssd'' [0.5] rc \<in> set (take 21 (fst (evaluate 2 c7_env)))) \<and>
   TaskEnd ''mssd'' [0.5] 1 \<in> set (take 21 (fst (evaluate 2 c7_env)))"
proof -
  have e: "evaluate 2 c7_env = (fst (evaluate 2 c7_env), snd (evaluate 2 c7_env))" by simp
  have i1: "1 < length (fst (evaluate 2 c7_env))" and i21: "21 < length (fst (evaluate 2 c7_env))"
    by (simp_all add: c7_trace)
  from stage_ordering[OF e i1] c7_trace(1)
  have a: "CalcErrors ''mssd'' 0 \<in> set (take 1 (fst (evaluate 2 c7_env)))" by simp
  have m: "mssd_error \<in> set errors" "etype mssd_error = ''mssd''" "[0.5] \<in> set (correct_th mssd_error)"
    by (simp_all add: errors_def correct_th_mssd)
  from stage_ordering[OF e i21] c7_trace(2)
  have "\<forall>err\<in>set errors. etype err = ''mssd'' \<longrightarrow>
     (\<forall>th'\<in>set (correct_th err). \<exists>rc. TaskEnd ''mssd'' th' rc \<in> set (take 21 (fst (evaluate 2 c7_env))))"
    by simp
  with m have b: "\<exists>rc. TaskEnd ''mssd'' [0.5] rc \<in> set (take 21 (fst (evaluate 2 c7_env)))"
    by blast
  have c: "TaskEnd ''mssd'' [0.5] 1 \<in> set (take 21 (fst (evaluate 2 c7_env)))"
    unfolding c7_trace(3) by (simp add: run_pool_def correct_th_mssd c7_env_def)
  from a b c c7_trace(1,2) show ?thesis by simp
qed

end
